theory Spec2Isabelle
  imports Main "HOL-Library.Char_ord" "HOL-Library.List_Lexorder" "HOL-Library.Multiset"
begin

section \<open>JavaScript strings and values\<close>

text \<open>
  Strings are lists of characters with code points below 256. An optional string
  (\<open>string | undefined\<close>) is a \<open>string option\<close>; it is truthy when it is present and
  not empty.
\<close>

text \<open>The white space and line terminators that \<open>String.prototype.trim\<close> removes,
  as far as they lie below 256.\<close>

definition is_whitespace :: "char \<Rightarrow> bool" where
  "is_whitespace c =
     (c \<in> set [CHR 0x09, CHR 0x0A, CHR 0x0B, CHR 0x0C, CHR 0x0D, CHR 0x20, CHR 0xA0])"

definition trim :: "string \<Rightarrow> string" where
  "trim s = rev (dropWhile is_whitespace (rev (dropWhile is_whitespace s)))"

fun truthy :: "string option \<Rightarrow> bool" where
  "truthy None = False"
| "truthy (Some s) = (s \<noteq> [])"

text \<open>\<open>a || d\<close> for an optional string \<open>a\<close> and a string \<open>d\<close>.\<close>

fun or_string :: "string option \<Rightarrow> string \<Rightarrow> string" where
  "or_string None d = d"
| "or_string (Some s) d = (if s = [] then d else s)"

text \<open>\<open>a || b\<close> for two optional strings.\<close>

fun or_option :: "string option \<Rightarrow> string option \<Rightarrow> string option" where
  "or_option None b = b"
| "or_option (Some s) b = (if s = [] then b else Some s)"

text \<open>\<open>s.includes(sub)\<close>.\<close>

definition starts_with :: "string \<Rightarrow> string \<Rightarrow> bool" where
  "starts_with s sub = (take (length sub) s = sub)"

fun includes_str :: "string \<Rightarrow> string \<Rightarrow> bool" where
  "includes_str [] sub = (sub = [])"
| "includes_str (c # cs) sub = (starts_with (c # cs) sub \<or> includes_str cs sub)"

text \<open>\<open>xs.indexOf(x)\<close>: the first position of \<open>x\<close>, or \<open>-1\<close>.\<close>

fun indexOf :: "string list \<Rightarrow> string \<Rightarrow> int" where
  "indexOf [] x = -1"
| "indexOf (y # ys) x =
     (if y = x then 0 else (let i = indexOf ys x in if i = -1 then -1 else i + 1))"

text \<open>A number in a template literal: its decimal digits.\<close>

definition digit_char :: "nat \<Rightarrow> char" where
  "digit_char d = ''0123456789'' ! d"

function decimal :: "nat \<Rightarrow> string" where
  "decimal n = (if n < 10 then [digit_char n] else decimal (n div 10) @ [digit_char (n mod 10)])"
  by pat_completeness auto
termination
  by (relation "measure (\<lambda>n. n)") auto

declare decimal.simps [simp del]

text \<open>
  A value as \<open>JSON.parse\<close> delivers it, with \<open>undefined\<close> for what a property read
  gives where nothing is stored. An object is the list of its entries.
\<close>

datatype jsval =
    JUndefined
  | JNull
  | JBool bool
  | JNum int
  | JStr string
  | JArr "jsval list"
  | JObj "(string \<times> jsval) list"

datatype key = Name string | Index nat

text \<open>
  What a \<open>try\<close> block of the program can catch: an \<open>Error\<close> with its message (the
  one the program throws itself on a response that is not ok, one of the transport, one
  of \<open>response.json()\<close>), and the \<open>TypeError\<close> of reading a property of \<open>undefined\<close>
  or \<open>null\<close>.
\<close>

datatype failure =
    Thrown string
  | PropertyOfUndefined key
  | PropertyOfNull key

fun key_text :: "key \<Rightarrow> string" where
  "key_text (Name n) = n"
| "key_text (Index i) = decimal i"

text \<open>\<open>v[k]\<close> and \<open>v.k\<close>.\<close>

fun get_prop :: "jsval \<Rightarrow> key \<Rightarrow> failure + jsval" where
  "get_prop JUndefined k = Inl (PropertyOfUndefined k)"
| "get_prop JNull k = Inl (PropertyOfNull k)"
| "get_prop (JObj kvs) k =
     Inr (case map_of kvs (key_text k) of None \<Rightarrow> JUndefined | Some v \<Rightarrow> v)"
| "get_prop (JArr xs) (Index i) = Inr (if i < length xs then xs ! i else JUndefined)"
| "get_prop (JArr xs) (Name n) =
     Inr (if n = ''length'' then JNum (int (length xs)) else JUndefined)"
| "get_prop (JStr s) (Index i) = Inr (if i < length s then JStr [s ! i] else JUndefined)"
| "get_prop (JStr s) (Name n) =
     Inr (if n = ''length'' then JNum (int (length s)) else JUndefined)"
| "get_prop (JBool b) k = Inr JUndefined"
| "get_prop (JNum n) k = Inr JUndefined"

text \<open>The result of an awaited \<open>fetch\<close> followed by \<open>response.json()\<close>: the transport
  fails with a message, or a response arrives with \<open>ok\<close>, \<open>status\<close>, \<open>statusText\<close> and a
  body that parses to a value or makes \<open>json()\<close> throw.\<close>

datatype 'b parsed = Unparsable string | Parsed 'b

datatype 'b response =
    TransportError string
  | Response bool nat string "'b parsed"

section \<open>Command line (cli.tsx)\<close>

record Flags =
  flag_apiKey :: "string option"
  flag_model :: "string option"
  flag_personality :: "string option"
  flag_reconfigure :: bool

record Props =
  initialApiKey :: "string option"
  initialModel :: "string option"
  initialPersonality :: "string option"
  reconfigure :: bool

text \<open>\<open>env\<close> is the value of OPENROUTER_API_KEY.\<close>

definition cli_apiKey :: "Flags \<Rightarrow> string option \<Rightarrow> string option" where
  "cli_apiKey flags env = or_option (flag_apiKey flags) env"

definition cli_props :: "Flags \<Rightarrow> string option \<Rightarrow> Props" where
  "cli_props flags env =
     \<lparr>initialApiKey = (if flag_reconfigure flags then None else cli_apiKey flags env),
      initialModel = flag_model flags,
      initialPersonality = flag_personality flags,
      reconfigure = flag_reconfigure flags\<rparr>"

section \<open>Data of the application (app.tsx)\<close>

datatype Role = System | User | Assistant

text \<open>A transcript entry has role \<open>User\<close> or \<open>Assistant\<close>; \<open>System\<close> occurs in requests
  only. The content is declared a string; the content of a reply is whatever value the
  response body holds there.\<close>

record Message =
  role :: Role
  content :: jsval

record Pricing =
  prompt :: int
  completion :: int

text \<open>An entry of the listing response, and the entry the application keeps.\<close>

record RawModel =
  raw_id :: string
  raw_name :: "string option"
  raw_context_length :: int
  raw_pricing :: "Pricing option"

record Model =
  model_id :: string
  model_name :: string
  context_length :: int
  pricing :: "Pricing option"

record Config =
  apiKey :: string
  model :: string
  personality :: string

text \<open>What \<open>JSON.parse\<close> of the configuration file gives: any of the fields may be
  missing. The file itself is a \<open>SavedConfig option\<close>, \<open>None\<close> when it does not exist or
  does not parse.\<close>

record SavedConfig =
  saved_apiKey :: "string option"
  saved_model :: "string option"
  saved_personality :: "string option"

datatype SetupStep = ApiKey | PersonalitySelection | ModelSelection | Complete

text \<open>
  The module \<open>prompts.js\<close> is not among the sources. Its two functions that the
  application calls are parameters of the model: \<open>getPersonalityById\<close>, of whose result
  the application reads \<open>systemPrompt\<close> and \<open>welcomeMessage\<close>, and
  \<open>getPersonalityOptions\<close>, of whose entries it reads \<open>value\<close>, \<open>label\<close> and
  \<open>description\<close>.
\<close>

record PersonalityConfig =
  systemPrompt :: string
  welcomeMessage :: string

record PersonalityOption =
  option_value :: string
  option_label :: string
  option_description :: string

record Prompts =
  getPersonalityById :: "string \<Rightarrow> PersonalityConfig"
  getPersonalityOptions :: "PersonalityOption list"

text \<open>The state variables of \<open>App\<close>, one field for each \<open>useState\<close>.\<close>

record AppState =
  messages :: "Message list"
  input :: string
  isLoading :: bool
  isInputMode :: bool
  setupStep :: SetupStep
  tempApiKey :: string
  selectedPersonalityIndex :: int
  availableModels :: "Model list"
  selectedModel :: string
  finalApiKey :: string
  finalModel :: string
  finalPersonality :: string
  configLoaded :: bool

definition initial_state :: "Props \<Rightarrow> AppState" where
  "initial_state props =
     \<lparr>messages = [], input = [], isLoading = False, isInputMode = False,
      setupStep = ApiKey, tempApiKey = [], selectedPersonalityIndex = 0,
      availableModels = [], selectedModel = [],
      finalApiKey = or_string (initialApiKey props) [],
      finalModel = or_string (initialModel props) [],
      finalPersonality = or_string (initialPersonality props) ''cheerful'',
      configLoaded = False\<rparr>"

definition needsSetup :: "Props \<Rightarrow> AppState \<Rightarrow> bool" where
  "needsSetup props s =
     ((\<not> truthy (initialApiKey props) \<and> finalApiKey s = []) \<or> reconfigure props)"

definition default_model :: string where
  "default_model = ''meta-llama/llama-3.3-8b-instruct:free''"

definition fallback_model :: string where
  "fallback_model = ''anthropic/claude-3.5-sonnet''"

text \<open>\<open>finalPersonality || 'cheerful'\<close>.\<close>

definition or_cheerful :: "string \<Rightarrow> string" where
  "or_cheerful p = (if p = [] then ''cheerful'' else p)"

section \<open>Effects\<close>

text \<open>
  An effect reads the state variables of the render it belongs to (\<open>c\<close>) and queues
  updates; \<open>p\<close> is the state with the updates queued so far.
\<close>

definition init_personality_effect :: "Prompts \<Rightarrow> AppState \<Rightarrow> AppState" where
  "init_personality_effect P p =
     (if getPersonalityOptions P \<noteq> [] then p\<lparr>selectedPersonalityIndex := 0\<rparr> else p)"

text \<open>\<open>loadSavedConfig\<close> with \<open>loadConfig\<close> and \<open>clearConfig\<close>: the updates it makes and
  the configuration file it leaves.\<close>

definition loadSavedConfig ::
  "Props \<Rightarrow> SavedConfig option \<Rightarrow> AppState \<Rightarrow> AppState \<times> SavedConfig option" where
  "loadSavedConfig props file p =
     (if truthy (initialApiKey props) then (p\<lparr>configLoaded := True\<rparr>, file)
      else if reconfigure props then (p\<lparr>configLoaded := True\<rparr>, None)
      else (case file of
              None \<Rightarrow> (p\<lparr>configLoaded := True\<rparr>, file)
            | Some savedConfig \<Rightarrow>
                if truthy (saved_apiKey savedConfig)
                then (p\<lparr>finalApiKey := or_string (saved_apiKey savedConfig) [],
                         finalModel := or_string (saved_model savedConfig) default_model,
                         finalPersonality :=
                           or_string (saved_personality savedConfig) ''cheerful'',
                         setupStep := Complete,
                         configLoaded := True\<rparr>, file)
                else (p\<lparr>configLoaded := True\<rparr>, file)))"

definition setup_effect :: "Props \<Rightarrow> AppState \<Rightarrow> AppState \<Rightarrow> AppState" where
  "setup_effect props c p =
     (if \<not> needsSetup props c \<and> configLoaded c \<and> finalApiKey c \<noteq> [] \<and>
         finalModel c \<noteq> [] \<and> finalPersonality c \<noteq> []
      then p\<lparr>setupStep := Complete,
             finalApiKey := or_string (initialApiKey props) (finalApiKey c),
             finalModel := or_string (initialModel props) (finalModel c),
             finalPersonality := or_string (initialPersonality props) (finalPersonality c)\<rparr>
      else if configLoaded c \<and> \<not> needsSetup props c
      then (if finalApiKey c = [] \<and> \<not> truthy (initialApiKey props)
            then p\<lparr>setupStep := ApiKey\<rparr>
            else if finalModel c = [] \<and> \<not> truthy (initialModel props)
            then p\<lparr>setupStep := ModelSelection\<rparr>
            else if finalPersonality c = [] \<and> \<not> truthy (initialPersonality props)
            then p\<lparr>setupStep := PersonalitySelection\<rparr>
            else p\<lparr>setupStep := Complete\<rparr>)
      else p)"

definition welcome_message :: "Prompts \<Rightarrow> AppState \<Rightarrow> Message" where
  "welcome_message P c =
     \<lparr>role = Assistant,
      content = JStr (welcomeMessage (getPersonalityById P (or_cheerful (finalPersonality c))))\<rparr>"

definition saved_of :: "Config \<Rightarrow> SavedConfig" where
  "saved_of cfg =
     \<lparr>saved_apiKey = Some (apiKey cfg), saved_model = Some (model cfg),
      saved_personality = Some (personality cfg)\<rparr>"

text \<open>The effect on completion. Besides the state it returns the configurations that
  \<open>saveConfig\<close> is called with, in order (none, or one).\<close>

definition complete_effect ::
  "Props \<Rightarrow> Prompts \<Rightarrow> AppState \<Rightarrow> AppState \<Rightarrow> AppState \<times> Config list" where
  "complete_effect props P c p =
     (if setupStep c = Complete \<and> finalApiKey c \<noteq> [] \<and> configLoaded c
      then (p\<lparr>messages := [welcome_message P c], isInputMode := True\<rparr>,
            if \<not> truthy (initialApiKey props)
            then [\<lparr>apiKey = finalApiKey c, model = finalModel c,
                   personality = finalPersonality c\<rparr>]
            else [])
      else (p, []))"

section \<open>Setup handlers\<close>

record KeyPress =
  key_input :: string
  escape :: bool
  ctrl :: bool
  upArrow :: bool
  downArrow :: bool
  key_return :: bool

text \<open>The \<open>useInput\<close> handler; \<open>None\<close> is \<open>process.exit(0)\<close>.\<close>

definition handle_key :: "Prompts \<Rightarrow> KeyPress \<Rightarrow> AppState \<Rightarrow> AppState option" where
  "handle_key P k s =
     (if escape k then None
      else if ctrl k \<and> key_input k = ''c'' then None
      else if setupStep s = PersonalitySelection
      then (let personalityOptions = getPersonalityOptions P;
                n = int (length personalityOptions);
                i = selectedPersonalityIndex s
            in if upArrow k
               then Some (s\<lparr>selectedPersonalityIndex := (if i > 0 then i - 1 else n - 1)\<rparr>)
               else if downArrow k
               then Some (s\<lparr>selectedPersonalityIndex := (if i < n - 1 then i + 1 else 0)\<rparr>)
               else if key_return k
               then (if 0 \<le> i \<and> i < n
                     then Some (s\<lparr>finalPersonality :=
                                    option_value (personalityOptions ! nat i),
                                  setupStep := Complete\<rparr>)
                     else Some s)
               else Some s)
      else Some s)"

definition popularModels :: "string list" where
  "popularModels =
     [''anthropic/claude-3.5-sonnet'', ''openai/gpt-4'', ''anthropic/claude-3-haiku'',
      ''openai/gpt-3.5-turbo'']"

text \<open>
  \<open>a.localeCompare(b)\<close> is the collation of the host. A collation orders strings by
  their sort keys; the key function \<open>K\<close> is a parameter of the model.
\<close>

definition localeCompare :: "(string \<Rightarrow> 'k::linorder) \<Rightarrow> string \<Rightarrow> string \<Rightarrow> int" where
  "localeCompare K a b = (if K a < K b then -1 else if K b < K a then 1 else 0)"

definition compareModels :: "(string \<Rightarrow> 'k::linorder) \<Rightarrow> Model \<Rightarrow> Model \<Rightarrow> int" where
  "compareModels K a b =
     (let aIndex = indexOf popularModels (model_id a);
          bIndex = indexOf popularModels (model_id b)
      in if aIndex \<noteq> -1 \<and> bIndex \<noteq> -1 then aIndex - bIndex
         else if aIndex \<noteq> -1 then -1
         else if bIndex \<noteq> -1 then 1
         else localeCompare K (model_name a) (model_name b))"

text \<open>\<open>Array.prototype.sort\<close> with a comparison function is a stable sort: an element
  goes before the first one that it does not compare greater than.\<close>

fun insert_by :: "('a \<Rightarrow> 'a \<Rightarrow> int) \<Rightarrow> 'a \<Rightarrow> 'a list \<Rightarrow> 'a list" where
  "insert_by cmp x [] = [x]"
| "insert_by cmp x (y # ys) =
     (if cmp x y \<le> 0 then x # y # ys else y # insert_by cmp x ys)"

definition sort_by :: "('a \<Rightarrow> 'a \<Rightarrow> int) \<Rightarrow> 'a list \<Rightarrow> 'a list" where
  "sort_by cmp xs = foldr (insert_by cmp) xs []"

definition keep_model :: "RawModel \<Rightarrow> bool" where
  "keep_model m = (\<not> includes_str (raw_id m) ''free'' \<and> raw_context_length m \<ge> 4000)"

definition to_model :: "RawModel \<Rightarrow> Model" where
  "to_model m =
     \<lparr>model_id = raw_id m, model_name = or_string (raw_name m) (raw_id m),
      context_length = raw_context_length m, pricing = raw_pricing m\<rparr>"

definition select_models :: "(string \<Rightarrow> 'k::linorder) \<Rightarrow> RawModel list \<Rightarrow> Model list" where
  "select_models K raw =
     take 15 (sort_by (compareModels K) (map to_model (filter keep_model raw)))"

text \<open>The \<open>try\<close> block of \<open>fetchAvailableModels\<close> up to \<open>data.data || []\<close>. The body of
  the listing is the list under \<open>data\<close>, if there is one.\<close>

definition listing_data :: "RawModel list option response \<Rightarrow> failure + RawModel list" where
  "listing_data r =
     (case r of
        TransportError msg \<Rightarrow> Inl (Thrown msg)
      | Response ok status statusText body \<Rightarrow>
          if \<not> ok then Inl (Thrown (''Failed to fetch models: '' @ decimal status))
          else (case body of
                  Unparsable msg \<Rightarrow> Inl (Thrown msg)
                | Parsed d \<Rightarrow> Inr (case d of None \<Rightarrow> [] | Some xs \<Rightarrow> xs)))"

text \<open>\<open>fetchAvailableModels\<close>: before the request is awaited, and the updates of the
  state variables that it makes when the result is there, one call of a setter each, in
  the order of the calls.\<close>

definition fetchAvailableModels_begin :: "AppState \<Rightarrow> AppState" where
  "fetchAvailableModels_begin s = s\<lparr>isLoading := True\<rparr>"

definition fetchAvailableModels_updates ::
  "(string \<Rightarrow> 'k::linorder) \<Rightarrow> RawModel list option response \<Rightarrow> (AppState \<Rightarrow> AppState) list" where
  "fetchAvailableModels_updates K r =
     (case listing_data r of
        Inr raw \<Rightarrow>
          [\<lambda>s. s\<lparr>availableModels := select_models K raw\<rparr>,
           \<lambda>s. s\<lparr>selectedModel := default_model\<rparr>,
           \<lambda>s. s\<lparr>setupStep := ModelSelection\<rparr>,
           \<lambda>s. s\<lparr>isLoading := False\<rparr>]
      | Inl e \<Rightarrow>
          [\<lambda>s. s\<lparr>availableModels := []\<rparr>,
           \<lambda>s. s\<lparr>finalModel := fallback_model\<rparr>,
           \<lambda>s. s\<lparr>setupStep := PersonalitySelection\<rparr>,
           \<lambda>s. s\<lparr>isLoading := False\<rparr>])"

text \<open>\<open>handleApiKeySubmit\<close>; the second component is the key a listing is requested
  with, if one is.\<close>

definition handleApiKeySubmit :: "AppState \<Rightarrow> AppState \<times> string option" where
  "handleApiKeySubmit s =
     (if trim (tempApiKey s) = [] then (s, None)
      else (fetchAvailableModels_begin (s\<lparr>finalApiKey := trim (tempApiKey s)\<rparr>),
            Some (trim (tempApiKey s))))"

definition handleModelSubmit :: "AppState \<Rightarrow> AppState" where
  "handleModelSubmit s =
     (if trim (selectedModel s) = [] then s
      else (let modelExists =
                  list_ex (\<lambda>m. model_id m = trim (selectedModel s)) (availableModels s)
            in if modelExists \<or> trim (selectedModel s) = ''anthropic/claude-3.5-sonnet''
               then s\<lparr>finalModel := trim (selectedModel s),
                      setupStep := PersonalitySelection\<rparr>
               else s\<lparr>finalModel := trim (selectedModel s),
                      setupStep := PersonalitySelection\<rparr>))"

section \<open>Chat\<close>

record Request =
  authorization :: string
  request_model :: string
  request_messages :: "Message list"

text \<open>\<open>sendMessage\<close> up to the awaited request: the state after the updates, and the
  request if one is sent.\<close>

definition sendMessage_begin :: "Prompts \<Rightarrow> AppState \<Rightarrow> AppState \<times> Request option" where
  "sendMessage_begin P s =
     (if trim (input s) = [] \<or> isLoading s \<or> finalApiKey s = [] then (s, None)
      else (let userMessage = \<lparr>role = User, content = JStr (trim (input s))\<rparr>;
                selectedPersonalityConfig =
                  getPersonalityById P (or_cheerful (finalPersonality s))
            in (s\<lparr>messages := messages s @ [userMessage], input := [], isLoading := True\<rparr>,
                Some \<lparr>authorization = ''Bearer '' @ finalApiKey s,
                      request_model = finalModel s,
                      request_messages =
                        \<lparr>role = System,
                         content = JStr (systemPrompt selectedPersonalityConfig)\<rparr>
                        # messages s @ [userMessage]\<rparr>)))"

text \<open>\<open>data.choices[0].message.content\<close>.\<close>

definition completion_content :: "jsval \<Rightarrow> failure + jsval" where
  "completion_content data =
     (case get_prop data (Name ''choices'') of
        Inl e \<Rightarrow> Inl e
      | Inr choices \<Rightarrow>
          (case get_prop choices (Index 0) of
             Inl e \<Rightarrow> Inl e
           | Inr choice \<Rightarrow>
               (case get_prop choice (Name ''message'') of
                  Inl e \<Rightarrow> Inl e
                | Inr msg \<Rightarrow> get_prop msg (Name ''content''))))"

text \<open>The \<open>try\<close> block of \<open>sendMessage\<close> after the request: the content of the reply,
  or what is thrown.\<close>

definition reply_content :: "jsval response \<Rightarrow> failure + jsval" where
  "reply_content r =
     (case r of
        TransportError msg \<Rightarrow> Inl (Thrown msg)
      | Response ok status statusText body \<Rightarrow>
          if \<not> ok
          then Inl (Thrown (''OpenRouter API error: '' @ decimal status @ '' '' @ statusText))
          else (case body of
                  Unparsable msg \<Rightarrow> Inl (Thrown msg)
                | Parsed data \<Rightarrow> completion_content data))"

text \<open>\<open>error.message\<close>; the text of a \<open>TypeError\<close> is the one of V8.\<close>

fun error_message :: "failure \<Rightarrow> string" where
  "error_message (Thrown msg) = msg"
| "error_message (PropertyOfUndefined k) =
     ''Cannot read properties of undefined (reading '' @ [CHR 0x27] @ key_text k
       @ [CHR 0x27] @ '')''"
| "error_message (PropertyOfNull k) =
     ''Cannot read properties of null (reading '' @ [CHR 0x27] @ key_text k
       @ [CHR 0x27] @ '')''"

text \<open>The text of the error entry. It starts with the four bytes that the source file
  has before \<open>Sorry\<close>.\<close>

definition error_content :: "failure \<Rightarrow> string" where
  "error_content e =
     [CHR 0xC3, CHR 0xA2, CHR 0xC5, CHR 0x92] @ '' Sorry, I encountered an error: ''
       @ error_message e @ ''. Please check your API key and try again.''"

text \<open>The entry that \<open>sendMessage\<close> appends when the result is there: the assistant
  message of the \<open>try\<close> block, or the error message of the \<open>catch\<close> block.\<close>

definition reply_entry :: "jsval response \<Rightarrow> Message" where
  "reply_entry r =
     (case reply_content r of
        Inr c \<Rightarrow> \<lparr>role = Assistant, content = c\<rparr>
      | Inl e \<Rightarrow> \<lparr>role = Assistant, content = JStr (error_content e)\<rparr>)"

text \<open>
  The chat view, shown in step \<open>Complete\<close>, renders every entry of the transcript with
  \<open>MessageRenderer\<close>, which calls \<open>content.split\<close>: a content that is not a string
  makes the render throw.
\<close>

fun is_text :: "jsval \<Rightarrow> bool" where
  "is_text (JStr t) = True"
| "is_text v = False"

definition renders :: "AppState \<Rightarrow> bool" where
  "renders s =
     (if setupStep s = Complete then list_all (\<lambda>e. is_text (content e)) (messages s)
      else True)"

section \<open>The running application\<close>

text \<open>
  \<open>app\<close> holds the state variables of the current render and \<open>rendered\<close> those of the
  render before it, against which the dependencies of the effects are compared
  (\<open>None\<close> before the first render). \<open>config_file\<close> is the configuration file, \<open>saves\<close>
  the configurations \<open>saveConfig\<close> was called with, \<open>visited\<close> the setup steps of the
  renders so far (a step that stays is listed once), \<open>listings\<close> and \<open>requests\<close> the
  requests sent, \<open>exited\<close> whether the process has ended (by \<open>process.exit\<close> or by a
  render that throws).
\<close>

record Machine =
  app :: AppState
  rendered :: "AppState option"
  config_file :: "SavedConfig option"
  saves :: "Config list"
  visited :: "SetupStep list"
  listings :: "string list"
  requests :: "Request list"
  exited :: bool

definition boot :: "Props \<Rightarrow> SavedConfig option \<Rightarrow> Machine" where
  "boot props f =
     \<lparr>app = initial_state props, rendered = None, config_file = f, saves = [],
      visited = [ApiKey], listings = [], requests = [], exited = False\<rparr>"

text \<open>A committed update of the state variables: the next render.\<close>

definition commit :: "AppState \<Rightarrow> Machine \<Rightarrow> Machine" where
  "commit s m =
     m\<lparr>app := s,
       visited := (if setupStep s = setupStep (app m) then visited m
                   else visited m @ [setupStep s])\<rparr>"

text \<open>The dependencies of the setup effect and of the effect on completion that can
  change; the properties among them stay the same.\<close>

definition setup_deps :: "Props \<Rightarrow> AppState \<Rightarrow> bool \<times> bool \<times> string \<times> string \<times> string" where
  "setup_deps props s =
     (needsSetup props s, configLoaded s, finalApiKey s, finalModel s, finalPersonality s)"

definition complete_deps :: "AppState \<Rightarrow> SetupStep \<times> string \<times> string \<times> string \<times> bool" where
  "complete_deps s =
     (setupStep s, finalApiKey s, finalModel s, finalPersonality s, configLoaded s)"

definition changed :: "(AppState \<Rightarrow> 'a) \<Rightarrow> AppState option \<Rightarrow> AppState \<Rightarrow> bool" where
  "changed deps prev c = (case prev of None \<Rightarrow> True | Some q \<Rightarrow> deps q \<noteq> deps c)"

text \<open>
  The effects after a render, in the order of the source: on the first render all of
  them, afterwards those with a changed dependency. All of them read the state variables
  of this render; their updates are applied together. The updates of \<open>loadSavedConfig\<close>
  are made when its awaited file operations return; the other effects of the first render
  make none (\<open>configLoaded\<close> is false in it), so they are applied with this render's.
\<close>

definition run_effects :: "Props \<Rightarrow> Prompts \<Rightarrow> Machine \<Rightarrow> Machine" where
  "run_effects props P m =
     (let c = app m;
          first = (rendered m = None);
          p1 = (if first then init_personality_effect P c else c);
          l = (if first then loadSavedConfig props (config_file m) p1
               else (p1, config_file m));
          p3 = (if changed (setup_deps props) (rendered m) c
                then setup_effect props c (fst l) else fst l);
          e = (if changed complete_deps (rendered m) c
               then complete_effect props P c p3 else (p3, []))
      in (commit (fst e) m)
           \<lparr>rendered := Some c,
            config_file := (if snd e = [] then snd l else Some (saved_of (last (snd e)))),
            saves := saves m @ snd e\<rparr>)"

text \<open>Renders and effects until an effect round leaves the state variables as they
  are; \<open>None\<close> if that does not happen within \<open>n\<close> rounds.\<close>

fun settle :: "nat \<Rightarrow> Props \<Rightarrow> Prompts \<Rightarrow> Machine \<Rightarrow> Machine option" where
  "settle 0 props P m = None"
| "settle (Suc n) props P m =
     (let m' = run_effects props P m
      in if app m' = app m then Some m' else settle n props P m')"

definition startup :: "nat \<Rightarrow> Props \<Rightarrow> Prompts \<Rightarrow> SavedConfig option \<Rightarrow> Machine option" where
  "startup n props P f = settle n props P (boot props f)"

text \<open>
  An update of a state variable that is made when an awaited result is there, outside
  of an input handler: it is followed by a render at once. The effects of the render
  before, if they have not run yet, run first; they read the state variables of that
  render, and their updates are queued behind the update that is being made.
\<close>

definition set_state ::
  "Props \<Rightarrow> Prompts \<Rightarrow> (AppState \<Rightarrow> AppState) \<Rightarrow> Machine \<Rightarrow> Machine" where
  "set_state props P u m =
     (if exited m then m
      else (let c = app m;
                p3 = (if changed (setup_deps props) (rendered m) c
                      then setup_effect props c (u c) else u c);
                e = (if changed complete_deps (rendered m) c
                     then complete_effect props P c p3 else (p3, []))
            in (commit (fst e) m)
                 \<lparr>rendered := Some c,
                  config_file := (if snd e = [] then config_file m
                                  else Some (saved_of (last (snd e)))),
                  saves := saves m @ snd e\<rparr>))"

text \<open>The rest of \<open>fetchAvailableModels\<close> when the result of the listing is there.\<close>

definition fetchAvailableModels_end ::
  "Props \<Rightarrow> (string \<Rightarrow> 'k::linorder) \<Rightarrow> Prompts \<Rightarrow> RawModel list option response
     \<Rightarrow> Machine \<Rightarrow> Machine" where
  "fetchAvailableModels_end props K P r m =
     foldl (\<lambda>m' u. set_state props P u m') m (fetchAvailableModels_updates K r)"

text \<open>The rest of \<open>sendMessage\<close> when the result of the request is there: the entry is
  appended and rendered; when the render throws the application ends there, otherwise
  loading ends.\<close>

definition sendMessage_end :: "Props \<Rightarrow> Prompts \<Rightarrow> jsval response \<Rightarrow> Machine \<Rightarrow> Machine" where
  "sendMessage_end props P r m =
     (let m1 = set_state props P (\<lambda>s. s\<lparr>messages := messages s @ [reply_entry r]\<rparr>) m
      in if renders (app m1) then set_state props P (\<lambda>s. s\<lparr>isLoading := False\<rparr>) m1
         else m1\<lparr>exited := True\<rparr>)"

text \<open>
  What happens to the application: a key reaches \<open>useInput\<close> (active while the step is
  not \<open>Complete\<close>), the text of the input field that is shown changes or is submitted,
  or the result of a request arrives. The api-key field is shown in step \<open>ApiKey\<close> once
  the configuration is loaded, the model field in step \<open>ModelSelection\<close> while nothing
  is loading, the chat field in step \<open>Complete\<close> in input mode while nothing is loading.
  \<open>handle_event\<close> is what the input handlers do, with their updates made together;
  the arrival of a result is no input and is left to \<open>arrive\<close>.
\<close>

datatype Event =
    KeyEvent KeyPress
  | ApiKeyChange string
  | ApiKeySubmit
  | ListingArrives "RawModel list option response"
  | ModelChange string
  | ModelSubmit
  | InputChange string
  | InputSubmit
  | ReplyArrives "jsval response"

definition api_key_field :: "AppState \<Rightarrow> bool" where
  "api_key_field s = (setupStep s = ApiKey \<and> configLoaded s)"

definition model_field :: "AppState \<Rightarrow> bool" where
  "model_field s = (setupStep s = ModelSelection \<and> \<not> isLoading s)"

definition chat_field :: "AppState \<Rightarrow> bool" where
  "chat_field s = (setupStep s = Complete \<and> isInputMode s \<and> \<not> isLoading s)"

definition handle_event ::
  "(string \<Rightarrow> 'k::linorder) \<Rightarrow> Prompts \<Rightarrow> Event \<Rightarrow> Machine \<Rightarrow> Machine" where
  "handle_event K P ev m =
     (let s = app m
      in case ev of
           KeyEvent k \<Rightarrow>
             if setupStep s \<noteq> Complete
             then (case handle_key P k s of
                     None \<Rightarrow> m\<lparr>exited := True\<rparr>
                   | Some s' \<Rightarrow> commit s' m)
             else m
         | ApiKeyChange t \<Rightarrow>
             if api_key_field s then commit (s\<lparr>tempApiKey := t\<rparr>) m else m
         | ApiKeySubmit \<Rightarrow>
             if api_key_field s
             then (let r = handleApiKeySubmit s
                   in (commit (fst r) m)
                        \<lparr>listings := listings m @ (case snd r of None \<Rightarrow> [] | Some k \<Rightarrow> [k])\<rparr>)
             else m
         | ListingArrives r \<Rightarrow> m
         | ModelChange t \<Rightarrow>
             if model_field s then commit (s\<lparr>selectedModel := t\<rparr>) m else m
         | ModelSubmit \<Rightarrow>
             if model_field s then commit (handleModelSubmit s) m else m
         | InputChange t \<Rightarrow>
             if chat_field s then commit (s\<lparr>input := t\<rparr>) m else m
         | InputSubmit \<Rightarrow>
             if chat_field s
             then (let r = sendMessage_begin P s
                   in (commit (fst r) m)
                        \<lparr>requests := requests m @ (case snd r of None \<Rightarrow> [] | Some q \<Rightarrow> [q])\<rparr>)
             else m
         | ReplyArrives r \<Rightarrow> m)"

definition arrive ::
  "Props \<Rightarrow> (string \<Rightarrow> 'k::linorder) \<Rightarrow> Prompts \<Rightarrow> Event \<Rightarrow> Machine \<Rightarrow> Machine" where
  "arrive props K P ev m =
     (case ev of
        ListingArrives r \<Rightarrow> fetchAvailableModels_end props K P r m
      | ReplyArrives r \<Rightarrow> sendMessage_end props P r m
      | _ \<Rightarrow> handle_event K P ev m)"

text \<open>One event with the renders and effects that follow it; nothing happens after the
  process has ended.\<close>

definition step ::
  "nat \<Rightarrow> (string \<Rightarrow> 'k::linorder) \<Rightarrow> Props \<Rightarrow> Prompts \<Rightarrow> Event \<Rightarrow> Machine \<Rightarrow> Machine option" where
  "step n K props P ev m =
     (if exited m then Some m
      else (let m1 = arrive props K P ev m
            in if exited m1 then Some m1 else settle n props P m1))"

fun run ::
  "nat \<Rightarrow> (string \<Rightarrow> 'k::linorder) \<Rightarrow> Props \<Rightarrow> Prompts \<Rightarrow> Event list \<Rightarrow> Machine
     \<Rightarrow> Machine option" where
  "run n K props P [] m = Some m"
| "run n K props P (ev # evs) m =
     (case step n K props P ev m of
        None \<Rightarrow> None
      | Some m' \<Rightarrow> run n K props P evs m')"

text \<open>A session: the command line, the environment and the configuration file at the
  start, then the events.\<close>

definition session ::
  "nat \<Rightarrow> (string \<Rightarrow> 'k::linorder) \<Rightarrow> Prompts \<Rightarrow> Flags \<Rightarrow> string option
     \<Rightarrow> SavedConfig option \<Rightarrow> Event list \<Rightarrow> Machine option" where
  "session n K P flags env f evs =
     (case startup n (cli_props flags env) P f of
        None \<Rightarrow> None
      | Some m \<Rightarrow> run n K (cli_props flags env) P evs m)"

section \<open>Sample data\<close>

text \<open>A catalogue with the six personalities of the help text of \<open>cli.tsx\<close>; the prompt
  and welcome texts are stand-ins.\<close>

definition sample_ids :: "string list" where
  "sample_ids =
     [''cheerful'', ''sarcastic'', ''apathetic'', ''deadpan'', ''funny'', ''serious'']"

definition sample_prompts :: Prompts where
  "sample_prompts =
     \<lparr>getPersonalityById =
        (\<lambda>i. let j = (if i \<in> set sample_ids then i else ''cheerful'')
             in \<lparr>systemPrompt = ''system prompt of '' @ j,
                 welcomeMessage = ''welcome of '' @ j\<rparr>),
      getPersonalityOptions =
        map (\<lambda>i. \<lparr>option_value = i, option_label = i, option_description = i\<rparr>) sample_ids\<rparr>"

definition no_flags :: Flags where
  "no_flags =
     \<lparr>flag_apiKey = None, flag_model = None, flag_personality = None,
      flag_reconfigure = False\<rparr>"

definition no_key :: KeyPress where
  "no_key =
     \<lparr>key_input = [], escape = False, ctrl = False, upArrow = False, downArrow = False,
      key_return = False\<rparr>"

text \<open>The state of a chat in progress, and the same with a turn typed.\<close>

definition sample_chat :: AppState where
  "sample_chat =
     \<lparr>messages = [\<lparr>role = Assistant, content = JStr ''welcome of cheerful''\<rparr>],
      input = [], isLoading = False, isInputMode = True, setupStep = Complete,
      tempApiKey = ''k1'', selectedPersonalityIndex = 0, availableModels = [],
      selectedModel = ''openai/gpt-4'', finalApiKey = ''k1'',
      finalModel = ''openai/gpt-4'', finalPersonality = ''cheerful'',
      configLoaded = True\<rparr>"

definition sample_turn :: AppState where
  "sample_turn = sample_chat\<lparr>input := '' fix my loop ''\<rparr>"

text \<open>The state in the personality selection, with the cursor on the first entry.\<close>

definition sample_selection :: AppState where
  "sample_selection =
     \<lparr>messages = [], input = [], isLoading = False, isInputMode = False,
      setupStep = PersonalitySelection, tempApiKey = ''k1'',
      selectedPersonalityIndex = 0, availableModels = [], selectedModel = [],
      finalApiKey = ''k1'', finalModel = ''anthropic/claude-3.5-sonnet'',
      finalPersonality = ''cheerful'', configLoaded = True\<rparr>"

section \<open>The order of the model list, in the words of the specification\<close>

definition popular :: "Model \<Rightarrow> bool" where
  "popular m = (model_id m \<in> set popularModels)"

text \<open>Popular entries come first, in the order of the list of popular identifiers; the
  others follow, ordered by the collation of their display names.\<close>

definition listed_before :: "(string \<Rightarrow> 'k::linorder) \<Rightarrow> Model \<Rightarrow> Model \<Rightarrow> bool" where
  "listed_before K a b =
     (if popular a
      then (if popular b
            then indexOf popularModels (model_id a) \<le> indexOf popularModels (model_id b)
            else True)
      else (\<not> popular b \<and> K (model_name a) \<le> K (model_name b)))"

section \<open>Failed attempts, in the words of the specification\<close>

definition nullish :: "jsval \<Rightarrow> bool" where
  "nullish v = (v = JUndefined \<or> v = JNull)"

text \<open>The value under a key, \<open>undefined\<close> where there is nothing to read from.\<close>

definition read_key :: "jsval \<Rightarrow> key \<Rightarrow> jsval" where
  "read_key v k = (case get_prop v k of Inl e \<Rightarrow> JUndefined | Inr x \<Rightarrow> x)"

definition message_of :: "jsval \<Rightarrow> jsval" where
  "message_of data =
     read_key (read_key (read_key data (Name ''choices'')) (Index 0)) (Name ''message'')"

definition content_of :: "jsval \<Rightarrow> jsval" where
  "content_of data = read_key (message_of data) (Name ''content'')"

text \<open>An attempt fails by a transport error, a status that is not a success, a body
  that does not parse, or a body without \<open>choices[0].message\<close>.\<close>

definition attempt_fails :: "jsval response \<Rightarrow> bool" where
  "attempt_fails r =
     (case r of
        TransportError msg \<Rightarrow> True
      | Response ok status statusText body \<Rightarrow>
          (if ok then (case body of Unparsable msg \<Rightarrow> True
                                  | Parsed data \<Rightarrow> nullish (message_of data))
           else True))"

text \<open>A transcript entry that describes an error: an assistant message whose text is
  the one of the \<open>catch\<close> block for some failure.\<close>

definition error_lead :: string where
  "error_lead = [CHR 0xC3, CHR 0xA2, CHR 0xC5, CHR 0x92] @ '' Sorry, I encountered an error: ''"

definition describes_error :: "Message \<Rightarrow> bool" where
  "describes_error msg =
     (role msg = Assistant \<and>
      (case content msg of JStr t \<Rightarrow> starts_with t error_lead | _ \<Rightarrow> False))"

text \<open>A reply with status 200 whose first choice has a message without content, and a
  reply with status 500.\<close>

definition reply_without_content :: "jsval response" where
  "reply_without_content =
     Response True 200 ''OK''
       (Parsed (JObj [(''choices'',
          JArr [JObj [(''message'', JObj [(''role'', JStr ''assistant'')])]])]))"

definition reply_500 :: "jsval response" where
  "reply_500 = Response False 500 ''Internal Server Error'' (Unparsable ''Unexpected token'')"

text \<open>The state after \<open>sample_turn\<close> is submitted.\<close>

definition sample_waiting :: AppState where
  "sample_waiting =
     sample_chat\<lparr>messages := messages sample_chat
                    @ [\<lparr>role = User, content = JStr ''fix my loop''\<rparr>],
                  isLoading := True\<rparr>"

section \<open>Reading off a session\<close>

definition steps_of :: "Machine option \<Rightarrow> SetupStep list" where
  "steps_of r = (case r of None \<Rightarrow> [] | Some m \<Rightarrow> visited m)"

definition saves_of :: "Machine option \<Rightarrow> Config list" where
  "saves_of r = (case r of None \<Rightarrow> [] | Some m \<Rightarrow> saves m)"

definition state_of :: "Machine option \<Rightarrow> AppState option" where
  "state_of r = (case r of None \<Rightarrow> None | Some m \<Rightarrow> Some (app m))"

text \<open>The collation that orders strings by their code units.\<close>

definition by_code_units :: "string \<Rightarrow> string" where
  "by_code_units s = s"

definition finished :: "Machine option \<Rightarrow> bool" where
  "finished r = (case r of None \<Rightarrow> False | Some m \<Rightarrow> True)"

text \<open>A configuration file with a credential and a personality but no model.\<close>

definition saved_without_model :: SavedConfig where
  "saved_without_model =
     \<lparr>saved_apiKey = Some ''k1'', saved_model = None,
      saved_personality = Some ''sarcastic''\<rparr>"

section \<open>Completion and failed listings, in the words of the specification\<close>

text \<open>The resolved configuration, and the state in which setup is complete with a
  credential resolved.\<close>

definition resolved :: "AppState \<Rightarrow> Config" where
  "resolved s =
     \<lparr>apiKey = finalApiKey s, model = finalModel s, personality = finalPersonality s\<rparr>"

definition completed :: "AppState \<Rightarrow> bool" where
  "completed s = (setupStep s = Complete \<and> finalApiKey s \<noteq> [] \<and> configLoaded s)"

text \<open>What holds of the saves between the effect rounds: if the render whose effects
  ran last was completed, its resolved configuration is the last one saved; and the
  configuration file holds the last one saved.\<close>

definition saved_inv :: "Machine \<Rightarrow> bool" where
  "saved_inv m =
     (case rendered m of
        None \<Rightarrow> saves m = []
      | Some q \<Rightarrow>
          (if completed q then saves m \<noteq> [] \<and> last (saves m) = resolved q else True) \<and>
          (if saves m = [] then True
           else config_file m = Some (saved_of (last (saves m)))))"

text \<open>A listing fails by a transport error, a status that is not a success, or a body
  that cannot be read.\<close>

definition listing_fails :: "RawModel list option response \<Rightarrow> bool" where
  "listing_fails r =
     (case r of
        TransportError msg \<Rightarrow> True
      | Response ok status statusText body \<Rightarrow>
          (if ok then (case body of Unparsable msg \<Rightarrow> True | Parsed d \<Rightarrow> False)
           else True))"

text \<open>The state variables after the effects of a render with state variables \<open>c\<close>
  that follows a render with state variables \<open>q\<close>.\<close>

definition effect_round :: "Props \<Rightarrow> Prompts \<Rightarrow> AppState \<Rightarrow> AppState \<Rightarrow> AppState" where
  "effect_round props P q c =
     (let p3 = (if setup_deps props q \<noteq> setup_deps props c then setup_effect props c c else c)
      in if complete_deps q \<noteq> complete_deps c then fst (complete_effect props P c p3) else p3)"

text \<open>Between events the effects have run on the current render; when the application
  has ended in a render, they have run on a render with the same dependencies.\<close>

definition same_deps :: "Machine \<Rightarrow> bool" where
  "same_deps m =
     (case rendered m of
        None \<Rightarrow> False
      | Some q \<Rightarrow> complete_deps q = complete_deps (app m))"

definition at_rest :: "Machine \<Rightarrow> bool" where
  "at_rest m = (same_deps m \<and> (exited m \<or> rendered m = Some (app m)))"




definition ended_of :: "Machine option \<Rightarrow> bool" where
  "ended_of r = (case r of None \<Rightarrow> False | Some m \<Rightarrow> exited m)"

section \<open>The model list, in the words of the specification\<close>

text \<open>The entries of a listing response (none when there is no list), the entries that
  are kept (no free tier, a context of at least 4000), the entry as it is kept (the
  display name is the name, or the identifier when there is no name), and entries that
  rank the same.\<close>

definition listing_entries :: "RawModel list option response \<Rightarrow> RawModel list" where
  "listing_entries r =
     (case r of
        TransportError msg \<Rightarrow> []
      | Response ok status statusText body \<Rightarrow>
          (case body of
             Unparsable msg \<Rightarrow> []
           | Parsed d \<Rightarrow> (case d of None \<Rightarrow> [] | Some xs \<Rightarrow> xs)))"

definition eligible :: "RawModel \<Rightarrow> bool" where
  "eligible x = (\<not> includes_str (raw_id x) ''free'' \<and> 4000 \<le> raw_context_length x)"

definition displayed :: "RawModel \<Rightarrow> Model" where
  "displayed x =
     \<lparr>model_id = raw_id x,
      model_name = (case raw_name x of
                      None \<Rightarrow> raw_id x
                    | Some n \<Rightarrow> if n = [] then raw_id x else n),
      context_length = raw_context_length x, pricing = raw_pricing x\<rparr>"

definition ranks_equal :: "(string \<Rightarrow> 'k::linorder) \<Rightarrow> Model \<Rightarrow> Model \<Rightarrow> bool" where
  "ranks_equal K a b = (listed_before K a b \<and> listed_before K b a)"

text \<open>A listing with eight entries, and a configuration file with all three fields.\<close>

definition sample_entry :: "string \<Rightarrow> string option \<Rightarrow> int \<Rightarrow> RawModel" where
  "sample_entry i n c =
     \<lparr>raw_id = i, raw_name = n, raw_context_length = c, raw_pricing = None\<rparr>"

definition sample_listing :: "RawModel list option response" where
  "sample_listing =
     Response True 200 ''OK''
       (Parsed (Some
          [sample_entry ''zeta/model'' None 8000,
           sample_entry ''openai/gpt-4'' (Some ''GPT-4'') 8000,
           sample_entry ''x:free'' None 9000,
           sample_entry ''small'' None 100,
           sample_entry ''anthropic/claude-3.5-sonnet'' None 200000,
           sample_entry ''alpha/m'' (Some ''beta'') 4000,
           sample_entry ''b/m'' (Some ''alpha'') 4000,
           sample_entry ''openai/gpt-3.5-turbo'' (Some []) 16000]))"

definition saved_funny :: SavedConfig where
  "saved_funny =
     \<lparr>saved_apiKey = Some ''k1'', saved_model = Some ''m1'',
      saved_personality = Some ''funny''\<rparr>"

text \<open>A reply with status 200 and a content.\<close>

definition reply_ok :: "jsval response" where
  "reply_ok =
     Response True 200 ''OK''
       (Parsed (JObj [(''choices'',
          JArr [JObj [(''message'',
            JObj [(''role'', JStr ''assistant''), (''content'', JStr ''Use a for loop.'')])]])]))"

section \<open>Properties of the chat\<close>

text \<open>
  C8: a submission whose trimmed text is empty, or that is made while a request is in
  flight, or while no credential is resolved, does nothing: \<open>sendMessage\<close> returns
  the state as it is and sends no request, and the whole machine is unchanged.
\<close>

theorem submit_guard_noop:
  assumes "trim (input (app m)) = [] \<or> isLoading (app m) \<or> finalApiKey (app m) = []"
  shows "sendMessage_begin P (app m) = (app m, None) \<and> handle_event K P InputSubmit m = m"
proof -
  have b: "sendMessage_begin P (app m) = (app m, None)"
    using assms by (simp add: sendMessage_begin_def)
  have "handle_event K P InputSubmit m = m"
    by (simp add: handle_event_def Let_def b commit_def)
  with b show ?thesis by simp
qed

theorem submit_guard_noop_witness:
  "sendMessage_begin sample_prompts (sample_chat\<lparr>input := ''   ''\<rparr>) =
     (sample_chat\<lparr>input := ''   ''\<rparr>, None) \<and>
   sendMessage_begin sample_prompts (sample_waiting\<lparr>input := ''next''\<rparr>) =
     (sample_waiting\<lparr>input := ''next''\<rparr>, None) \<and>
   sendMessage_begin sample_prompts (sample_turn\<lparr>finalApiKey := []\<rparr>) =
     (sample_turn\<lparr>finalApiKey := []\<rparr>, None)"
proof -
  let ?m = "\<lambda>s. \<lparr>app = s, rendered = Some s, config_file = None, saves = [],
    visited = [ApiKey, Complete], listings = [], requests = [], exited = False\<rparr>"
  have "trim (input (sample_chat\<lparr>input := ''   ''\<rparr>)) = []"
    by (simp add: trim_def is_whitespace_def)
  moreover have "isLoading (sample_waiting\<lparr>input := ''next''\<rparr>)"
    by (simp add: sample_waiting_def)
  moreover have "finalApiKey (sample_turn\<lparr>finalApiKey := []\<rparr>) = []"
    by simp
  ultimately show ?thesis
    using submit_guard_noop [of "?m (sample_chat\<lparr>input := ''   ''\<rparr>)" sample_prompts by_code_units]
      submit_guard_noop [of "?m (sample_waiting\<lparr>input := ''next''\<rparr>)" sample_prompts
        by_code_units]
      submit_guard_noop [of "?m (sample_turn\<lparr>finalApiKey := []\<rparr>)" sample_prompts
        by_code_units]
    by simp
qed

text \<open>
  C6: the request of a submitted turn carries the resolved model and the messages: the
  system prompt of the active personality, the transcript so far in order, and the new
  user message last.
\<close>

theorem request_body:
  "trim (input s) \<noteq> [] \<Longrightarrow> \<not> isLoading s \<Longrightarrow> finalApiKey s \<noteq> [] \<Longrightarrow>
     snd (sendMessage_begin P s) =
       Some \<lparr>authorization = ''Bearer '' @ finalApiKey s,
             request_model = finalModel s,
             request_messages =
               [\<lparr>role = System,
                 content = JStr (systemPrompt
                   (getPersonalityById P (or_cheerful (finalPersonality s))))\<rparr>]
               @ messages s
               @ [\<lparr>role = User, content = JStr (trim (input s))\<rparr>]\<rparr>"
  by (simp add: sendMessage_begin_def Let_def)

lemma trim_turn: "trim (input sample_turn) = ''fix my loop''"
  by (simp add: sample_turn_def trim_def is_whitespace_def)

lemma sample_turn_fields:
  "\<not> isLoading sample_turn" "finalApiKey sample_turn = ''k1''"
  "finalModel sample_turn = ''openai/gpt-4''" "finalPersonality sample_turn = ''cheerful''"
  "messages sample_turn = [\<lparr>role = Assistant, content = JStr ''welcome of cheerful''\<rparr>]"
  by (simp_all add: sample_turn_def sample_chat_def)

lemma sample_cheerful:
  "getPersonalityById sample_prompts ''cheerful'' =
     \<lparr>systemPrompt = ''system prompt of cheerful'', welcomeMessage = ''welcome of cheerful''\<rparr>"
  by (simp add: sample_prompts_def sample_ids_def Let_def)

theorem request_body_witness:
  "trim (input sample_turn) \<noteq> [] \<and> \<not> isLoading sample_turn \<and> finalApiKey sample_turn \<noteq> [] \<and>
   snd (sendMessage_begin sample_prompts sample_turn) =
     Some \<lparr>authorization = ''Bearer k1'', request_model = ''openai/gpt-4'',
           request_messages =
             [\<lparr>role = System, content = JStr ''system prompt of cheerful''\<rparr>,
              \<lparr>role = Assistant, content = JStr ''welcome of cheerful''\<rparr>,
              \<lparr>role = User, content = JStr ''fix my loop''\<rparr>]\<rparr>"
  using request_body [of sample_turn sample_prompts]
  by (simp add: trim_turn sample_turn_fields sample_cheerful or_cheerful_def)

section \<open>Properties of the setup\<close>

text \<open>
  C7: in the personality selection the cursor moves cyclically over the \<open>n\<close> entries:
  up gives \<open>i - 1\<close> for \<open>i > 0\<close> and \<open>n - 1\<close> for \<open>i = 0\<close>, down gives \<open>i + 1\<close> for
  \<open>i < n - 1\<close> and \<open>0\<close> for \<open>i = n - 1\<close>; return commits the value of the entry under
  the cursor and sets the step to \<open>Complete\<close>. Nothing else changes.
\<close>

theorem cursor_cyclic:
  assumes "setupStep s = PersonalitySelection"
    and "\<not> escape k" and "\<not> (ctrl k \<and> key_input k = ''c'')"
  shows
    "(upArrow k \<and> 0 < selectedPersonalityIndex s \<longrightarrow>
        handle_key P k s =
          Some (s\<lparr>selectedPersonalityIndex := selectedPersonalityIndex s - 1\<rparr>)) \<and>
     (upArrow k \<and> selectedPersonalityIndex s = 0 \<longrightarrow>
        handle_key P k s =
          Some (s\<lparr>selectedPersonalityIndex := int (length (getPersonalityOptions P)) - 1\<rparr>)) \<and>
     (\<not> upArrow k \<and> downArrow k \<and>
      selectedPersonalityIndex s < int (length (getPersonalityOptions P)) - 1 \<longrightarrow>
        handle_key P k s =
          Some (s\<lparr>selectedPersonalityIndex := selectedPersonalityIndex s + 1\<rparr>)) \<and>
     (\<not> upArrow k \<and> downArrow k \<and>
      selectedPersonalityIndex s = int (length (getPersonalityOptions P)) - 1 \<longrightarrow>
        handle_key P k s = Some (s\<lparr>selectedPersonalityIndex := 0\<rparr>)) \<and>
     (\<not> upArrow k \<and> \<not> downArrow k \<and> key_return k \<and> 0 \<le> selectedPersonalityIndex s \<and>
      selectedPersonalityIndex s < int (length (getPersonalityOptions P)) \<longrightarrow>
        handle_key P k s =
          Some (s\<lparr>finalPersonality :=
                    option_value (getPersonalityOptions P ! nat (selectedPersonalityIndex s)),
                  setupStep := Complete\<rparr>))"
  using assms by (auto simp add: handle_key_def Let_def)

lemma sample_selection_fields:
  "setupStep sample_selection = PersonalitySelection"
  "selectedPersonalityIndex sample_selection = 0"
  by (simp_all add: sample_selection_def)

lemma sample_options: "length (getPersonalityOptions sample_prompts) = 6"
   "option_value (getPersonalityOptions sample_prompts ! 0) = ''cheerful''"
  by (simp_all add: sample_prompts_def sample_ids_def)

theorem cursor_cyclic_witness:
  "handle_key sample_prompts (no_key\<lparr>upArrow := True\<rparr>) sample_selection =
     Some (sample_selection\<lparr>selectedPersonalityIndex := 5\<rparr>) \<and>
   handle_key sample_prompts (no_key\<lparr>upArrow := True\<rparr>)
       (sample_selection\<lparr>selectedPersonalityIndex := 5\<rparr>) =
     Some (sample_selection\<lparr>selectedPersonalityIndex := 4\<rparr>) \<and>
   handle_key sample_prompts (no_key\<lparr>downArrow := True\<rparr>)
       (sample_selection\<lparr>selectedPersonalityIndex := 5\<rparr>) =
     Some (sample_selection\<lparr>selectedPersonalityIndex := 0\<rparr>) \<and>
   handle_key sample_prompts (no_key\<lparr>downArrow := True\<rparr>) sample_selection =
     Some (sample_selection\<lparr>selectedPersonalityIndex := 1\<rparr>) \<and>
   handle_key sample_prompts (no_key\<lparr>key_return := True\<rparr>) sample_selection =
     Some (sample_selection\<lparr>finalPersonality := ''cheerful'', setupStep := Complete\<rparr>)"
  using cursor_cyclic [of sample_selection "no_key\<lparr>upArrow := True\<rparr>" sample_prompts]
    cursor_cyclic [of "sample_selection\<lparr>selectedPersonalityIndex := 5\<rparr>"
      "no_key\<lparr>upArrow := True\<rparr>" sample_prompts]
    cursor_cyclic [of "sample_selection\<lparr>selectedPersonalityIndex := 5\<rparr>"
      "no_key\<lparr>downArrow := True\<rparr>" sample_prompts]
    cursor_cyclic [of sample_selection "no_key\<lparr>downArrow := True\<rparr>" sample_prompts]
    cursor_cyclic [of sample_selection "no_key\<lparr>key_return := True\<rparr>" sample_prompts]
  by (simp add: sample_selection_fields sample_options no_key_def)

section \<open>Properties of the model list\<close>

lemma indexOf_lower: "- 1 \<le> indexOf xs x"
  by (induction xs) (auto simp: Let_def)

lemma indexOf_absent: "indexOf xs x = -1 \<longleftrightarrow> x \<notin> set xs"
proof (induction xs)
  case Nil
  show ?case by simp
next
  case (Cons y ys)
  have "indexOf ys x + 1 \<noteq> - 1" using indexOf_lower [of ys x] by arith
  with Cons show ?case by (auto simp: Let_def)
qed

lemma compareModels_le:
  "compareModels K a b \<le> 0 \<longleftrightarrow> listed_before K a b"
  by (auto simp: compareModels_def listed_before_def popular_def Let_def localeCompare_def
      indexOf_absent)

lemma set_insert_by: "set (insert_by cmp x xs) = insert x (set xs)"
  by (induction xs) auto

lemma set_sort_by: "set (sort_by cmp xs) = set xs"
  unfolding sort_by_def by (induction xs) (auto simp: set_insert_by)

lemma sorted_insert_by:
  assumes total: "\<And>a b. cmp a b \<le> 0 \<or> cmp b a \<le> 0"
    and trans: "\<And>a b c. cmp a b \<le> 0 \<Longrightarrow> cmp b c \<le> 0 \<Longrightarrow> cmp a c \<le> 0"
  shows "sorted_wrt (\<lambda>a b. cmp a b \<le> 0) xs \<Longrightarrow>
         sorted_wrt (\<lambda>a b. cmp a b \<le> 0) (insert_by cmp x xs)"
proof (induction xs)
  case Nil
  show ?case by simp
next
  case (Cons y ys)
  show ?case
  proof (cases "cmp x y \<le> 0")
    case True
    with Cons.prems show ?thesis using trans by auto
  next
    case False
    then have "cmp y x \<le> 0" using total by blast
    with False Cons show ?thesis by (auto simp: set_insert_by)
  qed
qed

lemma sorted_sort_by:
  assumes "\<And>a b. cmp a b \<le> 0 \<or> cmp b a \<le> 0"
    and "\<And>a b c. cmp a b \<le> 0 \<Longrightarrow> cmp b c \<le> 0 \<Longrightarrow> cmp a c \<le> 0"
  shows "sorted_wrt (\<lambda>a b. cmp a b \<le> 0) (sort_by cmp xs)"
  unfolding sort_by_def
  by (induction xs) (simp_all add: sorted_insert_by [OF assms])

lemma listed_before_total: "listed_before K a b \<or> listed_before K b a"
  by (auto simp: listed_before_def)

lemma listed_before_trans:
  "listed_before K a b \<Longrightarrow> listed_before K b c \<Longrightarrow> listed_before K a c"
  by (auto simp: listed_before_def split: if_splits)

lemma sorted_models: "sorted_wrt (listed_before K) (sort_by (compareModels K) xs)"
proof -
  have "sorted_wrt (\<lambda>a b. compareModels K a b \<le> 0) (sort_by (compareModels K) xs)"
  proof (rule sorted_sort_by)
    show "compareModels K a b \<le> 0 \<or> compareModels K b a \<le> 0" for a b
      using listed_before_total [of K a b] by (simp add: compareModels_le)
    show "compareModels K a b \<le> 0 \<Longrightarrow> compareModels K b c \<le> 0 \<Longrightarrow>
          compareModels K a c \<le> 0" for a b c
      using listed_before_trans [of K a b c] by (simp add: compareModels_le)
  qed
  then show ?thesis by (simp add: compareModels_le)
qed

lemma sorted_wrt_take_n: "sorted_wrt R xs \<Longrightarrow> sorted_wrt R (take n xs)"
  by (metis append_take_drop_id sorted_wrt_append)

section \<open>Properties of the reply\<close>

lemma get_prop_fails: "(\<exists>e. get_prop v k = Inl e) \<longleftrightarrow> nullish v"
  by (cases v; cases k) (simp_all add: nullish_def)

lemma get_prop_read: "\<not> nullish v \<Longrightarrow> get_prop v k = Inr (read_key v k)"
  by (cases v; cases k) (simp_all add: nullish_def read_key_def)

lemma read_key_nullish: "nullish v \<Longrightarrow> read_key v k = JUndefined"
  by (cases v; cases k) (simp_all add: nullish_def read_key_def)

lemma completion_content_fails:
  assumes "nullish (message_of data)"
  shows "\<exists>e. completion_content data = Inl e"
proof -
  let ?choices = "read_key data (Name ''choices'')"
  let ?first = "read_key ?choices (Index 0)"
  let ?msg = "read_key ?first (Name ''message'')"
  show ?thesis
  proof (cases "nullish data")
    case True
    then obtain e where "get_prop data (Name ''choices'') = Inl e"
      using get_prop_fails by blast
    then show ?thesis by (simp add: completion_content_def)
  next
    case d: False
    show ?thesis
    proof (cases "nullish ?choices")
      case True
      then obtain e where "get_prop ?choices (Index 0) = Inl e"
        using get_prop_fails by blast
      with d show ?thesis by (simp add: completion_content_def get_prop_read)
    next
      case c: False
      show ?thesis
      proof (cases "nullish ?first")
        case True
        then obtain e where "get_prop ?first (Name ''message'') = Inl e"
          using get_prop_fails by blast
        with d c show ?thesis by (simp add: completion_content_def get_prop_read)
      next
        case c0: False
        from assms obtain e where "get_prop ?msg (Name ''content'') = Inl e"
          unfolding message_of_def using get_prop_fails by blast
        with d c c0 show ?thesis by (simp add: completion_content_def get_prop_read)
      qed
    qed
  qed
qed

lemma completion_content_reads:
  "\<not> nullish (message_of data) \<Longrightarrow> completion_content data = Inr (content_of data)"
proof -
  assume m: "\<not> nullish (message_of data)"
  have c0: "\<not> nullish (read_key (read_key data (Name ''choices'')) (Index 0))"
    using m read_key_nullish [of "read_key (read_key data (Name ''choices'')) (Index 0)"]
    by (auto simp: message_of_def nullish_def)
  have c: "\<not> nullish (read_key data (Name ''choices''))"
    using c0 read_key_nullish [of "read_key data (Name ''choices'')"]
    by (auto simp: nullish_def)
  have d: "\<not> nullish data"
    using c read_key_nullish [of data] by (auto simp: nullish_def)
  show ?thesis
    using m c0 c d
    by (simp add: completion_content_def get_prop_read content_of_def message_of_def)
qed

lemma reply_content_cases:
  "(attempt_fails r \<longrightarrow> (\<exists>e. reply_content r = Inl e)) \<and>
   (\<not> attempt_fails r \<longrightarrow>
      (\<exists>status statusText data. r = Response True status statusText (Parsed data) \<and>
         reply_content r = Inr (content_of data)))"
proof (cases r)
  case (TransportError msg)
  then show ?thesis by (simp add: attempt_fails_def reply_content_def)
next
  case (Response ok status statusText body)
  show ?thesis
  proof (cases body)
    case (Unparsable msg)
    with Response show ?thesis by (simp add: attempt_fails_def reply_content_def)
  next
    case (Parsed data)
    with Response show ?thesis
      using completion_content_fails [of data] completion_content_reads [of data]
      by (auto simp: attempt_fails_def reply_content_def)
  qed
qed

lemma decimal_500: "decimal 500 = ''500''"
  by (simp add: decimal.simps digit_char_def)

section \<open>Effects, saves and sessions\<close>

lemma not_truthy_or_string: "\<not> truthy a \<Longrightarrow> or_string a d = d"
  by (cases a) auto

lemma truthy_or_string: "truthy a \<Longrightarrow> or_string a d \<noteq> []"
  by (cases a) auto

lemma or_string_nonempty: "d \<noteq> [] \<Longrightarrow> or_string a d \<noteq> []"
  by (cases a) auto

lemma default_model_nonempty: "default_model \<noteq> []"
  by (simp add: default_model_def)

lemmas effect_defs = run_effects_def init_personality_effect_def loadSavedConfig_def
  setup_effect_def complete_effect_def changed_def setup_deps_def complete_deps_def
  commit_def needsSetup_def

lemma saved_inv_boot: "saved_inv (boot props f)"
  by (simp add: saved_inv_def boot_def)

lemma complete_effect_snd:
  "snd (complete_effect props P c p) =
     (if completed c \<and> \<not> truthy (initialApiKey props) then [resolved c] else [])"
  by (simp add: complete_effect_def completed_def resolved_def)

lemma loadSavedConfig_snd:
  "snd (loadSavedConfig props f p) =
     (if \<not> truthy (initialApiKey props) \<and> reconfigure props then None else f)"
  by (simp add: loadSavedConfig_def split: option.splits)

lemma complete_deps_same:
  "complete_deps q = complete_deps c \<Longrightarrow> completed q = completed c \<and> resolved q = resolved c"
  by (simp add: complete_deps_def completed_def resolved_def)

lemma run_effects_rendered: "rendered (run_effects props P m) = Some (app m)"
  by (simp add: run_effects_def Let_def commit_def)

lemma run_effects_saves:
  "saves (run_effects props P m) = saves m @
     (if changed complete_deps (rendered m) (app m) \<and> completed (app m) \<and>
         \<not> truthy (initialApiKey props)
      then [resolved (app m)] else [])"
  by (simp add: run_effects_def Let_def commit_def complete_effect_snd)

lemma run_effects_config_file:
  "config_file (run_effects props P m) =
     (if changed complete_deps (rendered m) (app m) \<and> completed (app m) \<and>
         \<not> truthy (initialApiKey props)
      then Some (saved_of (resolved (app m)))
      else if rendered m = None \<and> \<not> truthy (initialApiKey props) \<and> reconfigure props
      then None
      else config_file m)"
  by (simp add: run_effects_def Let_def commit_def complete_effect_snd loadSavedConfig_snd)

lemmas run_effects_parts = run_effects_rendered run_effects_saves run_effects_config_file

lemma saved_inv_run_effects:
  assumes "\<not> truthy (initialApiKey props)" and "saved_inv m"
  shows "saved_inv (run_effects props P m)"
proof (cases "rendered m")
  case None
  with assms show ?thesis
    by (simp add: saved_inv_def run_effects_parts changed_def)
next
  case (Some q)
  show ?thesis
  proof (cases "complete_deps q = complete_deps (app m)")
    case True
    with assms Some complete_deps_same [OF True] show ?thesis
      by (simp add: saved_inv_def run_effects_parts changed_def)
  next
    case False
    with assms Some show ?thesis
      by (auto simp add: saved_inv_def run_effects_parts changed_def split: if_splits)
  qed
qed

lemma handle_event_frame:
  "rendered (handle_event K P ev m) = rendered m"
  "saves (handle_event K P ev m) = saves m"
  "config_file (handle_event K P ev m) = config_file m"
  by (cases ev; simp add: handle_event_def Let_def commit_def split: option.splits)+

lemma saved_inv_handle_event: "saved_inv m \<Longrightarrow> saved_inv (handle_event K P ev m)"
  by (auto simp add: saved_inv_def handle_event_frame split: option.splits if_splits)

lemma or_option_not_truthy: "\<not> truthy a \<Longrightarrow> \<not> truthy b \<Longrightarrow> \<not> truthy (or_option a b)"
  by (cases a) auto

lemma setup_effect_reconfigure: "reconfigure props \<Longrightarrow> setup_effect props c p = p"
  by (simp add: setup_effect_def needsSetup_def)

lemma run_effects_idle:
  assumes "reconfigure props" and "rendered m = Some q" and "setupStep (app m) \<noteq> Complete"
  shows "run_effects props P m = m\<lparr>rendered := Some (app m)\<rparr>"
  using assms
  by (simp add: run_effects_def Let_def setup_effect_reconfigure complete_effect_def commit_def)

lemma settle_idle:
  assumes "reconfigure props" and "rendered m = Some q" and "setupStep (app m) \<noteq> Complete"
  shows "settle (Suc n) props P m = Some (m\<lparr>rendered := Some (app m)\<rparr>)"
  using run_effects_idle [OF assms] by (simp add: Let_def)

lemma startup_reconfigure:
  assumes "reconfigure props" and "\<not> truthy (initialApiKey props)"
  shows "startup (Suc (Suc n)) props P f =
           Some \<lparr>app = (initial_state props)\<lparr>configLoaded := True\<rparr>,
                 rendered = Some ((initial_state props)\<lparr>configLoaded := True\<rparr>),
                 config_file = None, saves = [], visited = [ApiKey], listings = [],
                 requests = [], exited = False\<rparr>"
proof -
  let ?s = "(initial_state props)\<lparr>configLoaded := True\<rparr>"
  let ?m1 = "\<lparr>app = ?s, rendered = Some (initial_state props), config_file = None,
              saves = [], visited = [ApiKey], listings = [], requests = [],
              exited = False\<rparr>"
  have r1: "run_effects props P (boot props f) = ?m1"
    using assms
    by (simp add: effect_defs boot_def initial_state_def Let_def)
  have ne: "app ?m1 \<noteq> app (boot props f)"
    by (simp add: boot_def initial_state_def)
  have "settle (Suc n) props P ?m1 = Some (?m1\<lparr>rendered := Some (app ?m1)\<rparr>)"
    by (rule settle_idle [OF assms(1)]) (simp_all add: initial_state_def)
  then show ?thesis
    unfolding startup_def using r1 ne by (simp add: Let_def)
qed

lemma fallback_model_nonempty: "fallback_model \<noteq> []"
  by (simp add: fallback_model_def)

section \<open>The effect rounds come to rest\<close>

lemma run_effects_app:
  "rendered m = Some q \<Longrightarrow> app (run_effects props P m) = effect_round props P q (app m)"
  by (simp add: run_effects_def effect_round_def Let_def changed_def commit_def)

lemma or_string_idem: "or_string a (or_string a d) = or_string a d"
  by (cases a) auto

lemma complete_effect_deps:
  "setup_deps props (fst (complete_effect props P c p)) = setup_deps props p"
  "complete_deps (fst (complete_effect props P c p)) = complete_deps p"
  by (simp_all add: complete_effect_def setup_deps_def complete_deps_def needsSetup_def)

lemma effect_round_deps:
  "setup_deps props (effect_round props P q c) =
     (if setup_deps props q \<noteq> setup_deps props c then setup_deps props (setup_effect props c c)
      else setup_deps props c)"
  "complete_deps (effect_round props P q c) =
     (if setup_deps props q \<noteq> setup_deps props c then complete_deps (setup_effect props c c)
      else complete_deps c)"
  by (simp_all add: effect_round_def Let_def complete_effect_deps)

lemma setup_effect_twice:
  assumes "setup_deps props (setup_effect props c c) \<noteq> setup_deps props c"
  shows "setup_deps props (setup_effect props (setup_effect props c c) (setup_effect props c c))
           = setup_deps props (setup_effect props c c) \<and>
         complete_deps (setup_effect props (setup_effect props c c) (setup_effect props c c))
           = complete_deps (setup_effect props c c)"
  using assms
  by (auto simp add: setup_effect_def setup_deps_def complete_deps_def needsSetup_def
      or_string_idem or_string_nonempty split: if_splits)

lemma setup_effect_deps_cong:
  assumes "setup_deps props c = setup_deps props c'" and "complete_deps c = complete_deps c'"
  shows "setup_deps props (setup_effect props c c) = setup_deps props (setup_effect props c' c')
         \<and> complete_deps (setup_effect props c c) = complete_deps (setup_effect props c' c')"
  using assms
  by (simp add: setup_effect_def setup_deps_def complete_deps_def needsSetup_def)

lemma effect_round_same:
  "setup_deps props q = setup_deps props c \<Longrightarrow> complete_deps q = complete_deps c \<Longrightarrow>
     effect_round props P q c = c"
  by (simp add: effect_round_def)

lemma effect_round_third:
  "effect_round props P (effect_round props P q c)
     (effect_round props P c (effect_round props P q c)) =
   effect_round props P c (effect_round props P q c)"
proof -
  let ?c2 = "effect_round props P q c"
  let ?c3 = "effect_round props P c ?c2"
  let ?g = "setup_effect props c c"
  have "setup_deps props ?c3 = setup_deps props ?c2 \<and> complete_deps ?c3 = complete_deps ?c2"
  proof (cases "setup_deps props c = setup_deps props ?c2")
    case True
    then show ?thesis by (simp add: effect_round_deps)
  next
    case False
    then have ran: "setup_deps props q \<noteq> setup_deps props c"
      and d2: "setup_deps props ?c2 = setup_deps props ?g" "complete_deps ?c2 = complete_deps ?g"
      by (auto simp: effect_round_deps split: if_splits)
    from False d2 have "setup_deps props ?g \<noteq> setup_deps props c" by simp
    from setup_effect_twice [OF this] setup_effect_deps_cong [OF d2]
    have "setup_deps props (setup_effect props ?c2 ?c2) = setup_deps props ?c2 \<and>
          complete_deps (setup_effect props ?c2 ?c2) = complete_deps ?c2"
      using d2 by simp
    with False show ?thesis by (simp add: effect_round_deps)
  qed
  then show ?thesis by (simp add: effect_round_same)
qed

lemma settle_three:
  assumes "rendered m = Some q"
  shows "\<exists>m'. settle (Suc (Suc (Suc n))) props P m = Some m'"
proof -
  let ?m1 = "run_effects props P m"
  let ?m2 = "run_effects props P ?m1"
  let ?m3 = "run_effects props P ?m2"
  have a1: "app ?m1 = effect_round props P q (app m)"
    using assms by (rule run_effects_app)
  have a2: "app ?m2 = effect_round props P (app m) (app ?m1)"
    by (rule run_effects_app) (rule run_effects_rendered)
  have a3: "app ?m3 = effect_round props P (app ?m1) (app ?m2)"
    by (rule run_effects_app) (rule run_effects_rendered)
  have "app ?m3 = app ?m2"
    unfolding a3 a2 a1 by (rule effect_round_third)
  then show ?thesis
    by (simp add: Let_def)
qed

lemma settle_four: "\<exists>m'. settle (Suc (Suc (Suc (Suc n)))) props P m = Some m'"
proof (cases "app (run_effects props P m) = app m")
  case True
  then show ?thesis by (simp add: Let_def)
next
  case False
  obtain m' where "settle (Suc (Suc (Suc n))) props P (run_effects props P m) = Some m'"
    using settle_three [OF run_effects_rendered] by blast
  with False show ?thesis by (simp add: Let_def)
qed

section \<open>Results of requests\<close>

lemma set_state_exited: "exited (set_state props P u m) = exited m"
  by (simp add: set_state_def Let_def commit_def)

lemma set_state_rendered:
  "\<not> exited m \<Longrightarrow> rendered (set_state props P u m) = Some (app m)"
  by (simp add: set_state_def Let_def commit_def)

lemma set_state_saves:
  "saves (set_state props P u m) = saves m @
     (if \<not> exited m \<and> changed complete_deps (rendered m) (app m) \<and> completed (app m) \<and>
         \<not> truthy (initialApiKey props)
      then [resolved (app m)] else [])"
  by (simp add: set_state_def Let_def commit_def complete_effect_snd)

lemma set_state_config_file:
  "config_file (set_state props P u m) =
     (if \<not> exited m \<and> changed complete_deps (rendered m) (app m) \<and> completed (app m) \<and>
         \<not> truthy (initialApiKey props)
      then Some (saved_of (resolved (app m)))
      else config_file m)"
  by (simp add: set_state_def Let_def commit_def complete_effect_snd)

lemmas set_state_parts = set_state_saves set_state_config_file

lemma saved_inv_set_state:
  assumes "\<not> truthy (initialApiKey props)" and "saved_inv m"
  shows "saved_inv (set_state props P u m)"
proof (cases "exited m")
  case True
  with assms show ?thesis by (simp add: set_state_def)
next
  case ne: False
  show ?thesis
  proof (cases "rendered m")
    case None
    with assms ne show ?thesis
      by (simp add: saved_inv_def set_state_parts set_state_rendered changed_def)
  next
    case (Some q)
    show ?thesis
    proof (cases "complete_deps q = complete_deps (app m)")
      case True
      with assms Some ne complete_deps_same [OF True] show ?thesis
        by (simp add: saved_inv_def set_state_parts set_state_rendered changed_def)
    next
      case False
      with assms Some ne show ?thesis
        by (auto simp add: saved_inv_def set_state_parts set_state_rendered changed_def
            split: if_splits)
    qed
  qed
qed

lemma saved_inv_exited: "saved_inv (m\<lparr>exited := b\<rparr>) = saved_inv m"
  by (cases "rendered m") (simp_all add: saved_inv_def)

lemma saved_inv_foldl:
  "\<not> truthy (initialApiKey props) \<Longrightarrow> saved_inv m \<Longrightarrow>
     saved_inv (foldl (\<lambda>m' u. set_state props P u m') m us)"
  by (induction us arbitrary: m) (simp_all add: saved_inv_set_state)

lemma saved_inv_arrive:
  assumes "\<not> truthy (initialApiKey props)" and "saved_inv m"
  shows "saved_inv (arrive props K P ev m)"
  using assms
  by (cases ev)
    (simp_all add: arrive_def saved_inv_handle_event fetchAvailableModels_end_def
      saved_inv_foldl sendMessage_end_def Let_def saved_inv_set_state saved_inv_exited)

lemma settle_rendered:
  "settle n props P m = Some m' \<Longrightarrow> rendered m' = Some (app m')"
proof (induction n arbitrary: m)
  case 0
  then show ?case by simp
next
  case (Suc n)
  let ?r = "run_effects props P m"
  show ?case
  proof (cases "app ?r = app m")
    case True
    with Suc.prems have "m' = ?r" by (simp add: Let_def)
    with True show ?thesis by (simp add: run_effects_rendered)
  next
    case False
    with Suc.prems have "settle n props P ?r = Some m'" by (simp add: Let_def)
    then show ?thesis by (rule Suc.IH)
  qed
qed

lemma at_rest_rendered: "rendered m = Some (app m) \<Longrightarrow> at_rest m"
  by (simp add: at_rest_def same_deps_def)

lemma set_state_at_rest_app:
  assumes "rendered m = Some (app m)" and "\<not> exited m"
  shows "app (set_state props P u m) = u (app m)"
  using assms by (simp add: set_state_def Let_def commit_def changed_def)

lemma foldl_set_state_exited:
  "exited (foldl (\<lambda>m' u. set_state props P u m') m us) = exited m"
  by (induction us arbitrary: m) (simp_all add: set_state_exited)

lemma handle_event_exited_same_deps:
  "same_deps m \<Longrightarrow> exited (handle_event K P ev m) \<Longrightarrow> \<not> exited m \<Longrightarrow>
     same_deps (handle_event K P ev m)"
  by (cases ev)
    (auto simp add: handle_event_def Let_def commit_def same_deps_def
      split: option.splits if_splits)

lemma arrive_exited_at_rest:
  assumes "at_rest m" and "\<not> exited m" and "exited (arrive props K P ev m)"
  shows "at_rest (arrive props K P ev m)"
proof -
  from assms(1,2) have r: "rendered m = Some (app m)" and sd: "same_deps m"
    by (simp_all add: at_rest_def)
  show ?thesis
  proof (cases ev)
    case (ListingArrives r)
    with assms show ?thesis
      by (simp add: arrive_def fetchAvailableModels_end_def foldl_set_state_exited)
  next
    case (ReplyArrives rp)
    let ?u = "\<lambda>s. s\<lparr>messages := messages s @ [reply_entry rp]\<rparr>"
    let ?m1 = "set_state props P ?u m"
    have a: "app ?m1 = ?u (app m)" using r assms(2) by (rule set_state_at_rest_app)
    have rd: "rendered ?m1 = Some (app m)" using assms(2) by (rule set_state_rendered)
    have "same_deps (?m1\<lparr>exited := True\<rparr>)"
      by (simp add: same_deps_def rd a complete_deps_def)
    moreover have "arrive props K P ev m = ?m1\<lparr>exited := True\<rparr>"
      using assms(2,3) ReplyArrives
      by (auto simp add: arrive_def sendMessage_end_def Let_def set_state_exited
          split: if_splits)
    ultimately show ?thesis by (simp add: at_rest_def)
  qed (use assms sd in \<open>auto simp add: arrive_def at_rest_def
      intro: handle_event_exited_same_deps\<close>)
qed

lemma step_at_rest:
  assumes "at_rest m" and "step n K props P ev m = Some m'"
  shows "at_rest m'"
proof (cases "exited m")
  case True
  with assms show ?thesis by (simp add: step_def)
next
  case ne: False
  show ?thesis
  proof (cases "exited (arrive props K P ev m)")
    case True
    with ne assms(2) have "m' = arrive props K P ev m" by (simp add: step_def Let_def)
    with arrive_exited_at_rest [OF assms(1) ne True] show ?thesis by simp
  next
    case False
    with ne assms(2) have "settle n props P (arrive props K P ev m) = Some m'"
      by (simp add: step_def Let_def)
    then show ?thesis by (intro at_rest_rendered settle_rendered)
  qed
qed

lemma run_at_rest:
  "at_rest m \<Longrightarrow> run n K props P evs m = Some m' \<Longrightarrow> at_rest m'"
proof (induction evs arbitrary: m)
  case Nil
  then show ?case by simp
next
  case (Cons ev evs)
  from Cons.prems obtain m1 where s: "step n K props P ev m = Some m1"
    and r: "run n K props P evs m1 = Some m'"
    by (auto split: option.splits)
  from step_at_rest [OF Cons.prems(1) s] Cons.IH [OF _ r] show ?case by simp
qed

lemma session_at_rest:
  assumes "session n K P flags env f evs = Some m"
  shows "at_rest m"
proof -
  from assms obtain m0 where st: "startup n (cli_props flags env) P f = Some m0"
    and r: "run n K (cli_props flags env) P evs m0 = Some m"
    by (auto simp: session_def split: option.splits)
  from st have "at_rest m0"
    unfolding startup_def by (intro at_rest_rendered settle_rendered)
  then show ?thesis using r by (rule run_at_rest)
qed

section \<open>Saves and ends of sessions\<close>

lemma settle_saved_inv:
  "\<not> truthy (initialApiKey props) \<Longrightarrow> saved_inv m \<Longrightarrow> settle n props P m = Some m' \<Longrightarrow>
     saved_inv m'"
proof (induction n arbitrary: m)
  case 0
  then show ?case by simp
next
  case (Suc n)
  let ?r = "run_effects props P m"
  have inv: "saved_inv ?r" using Suc.prems by (simp add: saved_inv_run_effects)
  show ?case
  proof (cases "app ?r = app m")
    case True
    with Suc.prems have "m' = ?r" by (simp add: Let_def)
    with inv show ?thesis by simp
  next
    case False
    with Suc.prems have "settle n props P ?r = Some m'" by (simp add: Let_def)
    with Suc.IH [OF Suc.prems(1) inv] show ?thesis by simp
  qed
qed

lemma step_saved_inv:
  assumes "\<not> truthy (initialApiKey props)" and "saved_inv m"
    and "step n K props P ev m = Some m'"
  shows "saved_inv m'"
proof (cases "exited m \<or> exited (arrive props K P ev m)")
  case True
  with assms(3) have "m' = m \<or> m' = arrive props K P ev m"
    by (auto simp add: step_def Let_def split: if_splits)
  with assms(1,2) show ?thesis by (auto simp add: saved_inv_arrive)
next
  case False
  with assms(3) have "settle n props P (arrive props K P ev m) = Some m'"
    by (simp add: step_def Let_def)
  with settle_saved_inv [OF assms(1) saved_inv_arrive [OF assms(1,2)]] show ?thesis
    by blast
qed

lemma run_saved_inv:
  "\<not> truthy (initialApiKey props) \<Longrightarrow> saved_inv m \<Longrightarrow> run n K props P evs m = Some m' \<Longrightarrow>
     saved_inv m'"
proof (induction evs arbitrary: m)
  case Nil
  then show ?case by simp
next
  case (Cons ev evs)
  from Cons.prems obtain m1 where s: "step n K props P ev m = Some m1"
    and r: "run n K props P evs m1 = Some m'"
    by (auto split: option.splits)
  from step_saved_inv [OF Cons.prems(1,2) s] Cons.IH [OF Cons.prems(1) _ r]
  show ?case by simp
qed

lemma session_saved:
  assumes "\<not> truthy (initialApiKey (cli_props flags env))"
    and "session n K P flags env f evs = Some m" and "completed (app m)"
  shows "saves m \<noteq> [] \<and> last (saves m) = resolved (app m) \<and>
         config_file m = Some (saved_of (last (saves m)))"
proof -
  from assms(2) obtain m0 where st: "startup n (cli_props flags env) P f = Some m0"
    and r: "run n K (cli_props flags env) P evs m0 = Some m"
    by (auto simp: session_def split: option.splits)
  have "saved_inv m0"
    using settle_saved_inv [OF assms(1) saved_inv_boot] st by (simp add: startup_def)
  then have inv: "saved_inv m" using run_saved_inv [OF assms(1) _ r] by simp
  from session_at_rest [OF assms(2)] obtain q where q: "rendered m = Some q"
    and d: "complete_deps q = complete_deps (app m)"
    by (auto simp add: at_rest_def same_deps_def split: option.splits)
  from complete_deps_same [OF d] assms(3) have "completed q" "resolved q = resolved (app m)"
    by simp_all
  with inv q show ?thesis by (auto simp add: saved_inv_def split: if_splits)
qed

lemma run_effects_no_save:
  "truthy (initialApiKey props) \<Longrightarrow>
     saves (run_effects props P m) = saves m \<and>
     config_file (run_effects props P m) = config_file m"
  by (simp add: run_effects_parts)

lemma set_state_no_save:
  "truthy (initialApiKey props) \<Longrightarrow>
     saves (set_state props P u m) = saves m \<and>
     config_file (set_state props P u m) = config_file m"
  by (simp add: set_state_parts)

lemma foldl_no_save:
  "truthy (initialApiKey props) \<Longrightarrow>
     saves (foldl (\<lambda>m' u. set_state props P u m') m us) = saves m \<and>
     config_file (foldl (\<lambda>m' u. set_state props P u m') m us) = config_file m"
  by (induction us arbitrary: m) (simp_all add: set_state_no_save)

lemma arrive_no_save:
  "truthy (initialApiKey props) \<Longrightarrow>
     saves (arrive props K P ev m) = saves m \<and>
     config_file (arrive props K P ev m) = config_file m"
  by (cases ev)
    (simp_all add: arrive_def handle_event_frame fetchAvailableModels_end_def foldl_no_save
      sendMessage_end_def Let_def set_state_no_save)

lemma settle_no_save:
  "truthy (initialApiKey props) \<Longrightarrow> settle n props P m = Some m' \<Longrightarrow>
     saves m' = saves m \<and> config_file m' = config_file m"
proof (induction n arbitrary: m)
  case 0
  then show ?case by simp
next
  case (Suc n)
  let ?r = "run_effects props P m"
  show ?case
  proof (cases "app ?r = app m")
    case True
    with Suc.prems have "m' = ?r" by (simp add: Let_def)
    with Suc.prems(1) show ?thesis by (simp add: run_effects_no_save)
  next
    case False
    with Suc.prems have "settle n props P ?r = Some m'" by (simp add: Let_def)
    with Suc.IH [OF Suc.prems(1)] Suc.prems(1) show ?thesis
      by (simp add: run_effects_no_save)
  qed
qed

lemma step_no_save:
  assumes "truthy (initialApiKey props)" and "step n K props P ev m = Some m'"
  shows "saves m' = saves m \<and> config_file m' = config_file m"
proof (cases "exited m \<or> exited (arrive props K P ev m)")
  case True
  with assms(2) have "m' = m \<or> m' = arrive props K P ev m"
    by (auto simp add: step_def Let_def split: if_splits)
  with assms(1) show ?thesis by (auto simp add: arrive_no_save)
next
  case False
  with assms(2) have "settle n props P (arrive props K P ev m) = Some m'"
    by (simp add: step_def Let_def)
  from settle_no_save [OF assms(1) this] show ?thesis
    by (simp add: arrive_no_save [OF assms(1)])
qed

lemma run_no_save:
  "truthy (initialApiKey props) \<Longrightarrow> run n K props P evs m = Some m' \<Longrightarrow>
     saves m' = saves m \<and> config_file m' = config_file m"
proof (induction evs arbitrary: m)
  case Nil
  then show ?case by simp
next
  case (Cons ev evs)
  from Cons.prems obtain m1 where s: "step n K props P ev m = Some m1"
    and r: "run n K props P evs m1 = Some m'"
    by (auto split: option.splits)
  from step_no_save [OF Cons.prems(1) s] Cons.IH [OF Cons.prems(1) r] show ?case by simp
qed

lemma session_no_save:
  assumes "truthy (initialApiKey (cli_props flags env))"
    and "session n K P flags env f evs = Some m"
  shows "saves m = [] \<and> config_file m = f"
proof -
  from assms(2) obtain m0 where st: "startup n (cli_props flags env) P f = Some m0"
    and r: "run n K (cli_props flags env) P evs m0 = Some m"
    by (auto simp: session_def split: option.splits)
  from st have "saves m0 = [] \<and> config_file m0 = f"
    using settle_no_save [OF assms(1)] by (fastforce simp: startup_def boot_def)
  with run_no_save [OF assms(1) r] show ?thesis by simp
qed

lemma step_finishes: "\<exists>m'. step (Suc (Suc (Suc (Suc n)))) K props P ev m = Some m'"
proof (cases "exited m \<or> exited (arrive props K P ev m)")
  case True
  then show ?thesis by (auto simp add: step_def Let_def)
next
  case False
  obtain m' where "settle (Suc (Suc (Suc (Suc n)))) props P (arrive props K P ev m) = Some m'"
    using settle_four by blast
  with False show ?thesis by (simp add: step_def Let_def)
qed

lemma run_finishes: "\<exists>m'. run (Suc (Suc (Suc (Suc n)))) K props P evs m = Some m'"
proof (induction evs arbitrary: m)
  case Nil
  show ?case by simp
next
  case (Cons ev evs)
  obtain m1 where "step (Suc (Suc (Suc (Suc n)))) K props P ev m = Some m1"
    using step_finishes by blast
  with Cons.IH [of m1] show ?case by simp
qed

lemma session_finishes: "\<exists>m. session (n + 4) K P flags env f evs = Some m"
proof -
  have n4: "n + 4 = Suc (Suc (Suc (Suc n)))" by simp
  obtain m0 where "startup (Suc (Suc (Suc (Suc n)))) (cli_props flags env) P f = Some m0"
    unfolding startup_def using settle_four by blast
  moreover obtain m where "run (Suc (Suc (Suc (Suc n)))) K (cli_props flags env) P evs m0 = Some m"
    using run_finishes by blast
  ultimately show ?thesis
    unfolding n4 by (simp add: session_def)
qed

text \<open>
  C1, as the code has it: when the configuration file holds a credential, no credential
  comes from the command line or the environment, reconfigure is not requested and
  neither model nor personality is overridden, the fields missing in the file take the
  built-in defaults (model \<open>meta-llama/llama-3.3-8b-instruct:free\<close>, personality
  \<open>cheerful\<close>) and the machine goes from its initial step straight to \<open>Complete\<close>; no
  selection step is entered.
\<close>

theorem saved_config_defaults:
  assumes "\<not> truthy (cli_apiKey flags env)" and "\<not> flag_reconfigure flags"
    and "\<not> truthy (flag_model flags)" and "\<not> truthy (flag_personality flags)"
    and "truthy (saved_apiKey sc)"
  shows "\<exists>m. startup (n + 3) (cli_props flags env) P (Some sc) = Some m \<and>
            visited m = [ApiKey, Complete] \<and> setupStep (app m) = Complete \<and>
            finalApiKey (app m) = or_string (saved_apiKey sc) [] \<and>
            finalModel (app m) = or_string (saved_model sc) default_model \<and>
            finalPersonality (app m) = or_string (saved_personality sc) ''cheerful''"
proof -
  let ?props = "cli_props flags env"
  have p: "\<not> truthy (initialApiKey ?props)" "\<not> reconfigure ?props"
    "\<not> truthy (initialModel ?props)" "\<not> truthy (initialPersonality ?props)"
    using assms by (simp_all add: cli_props_def)
  have n3: "n + 3 = Suc (Suc (Suc n))" by simp
  show ?thesis
    unfolding startup_def n3
    using p assms(5)
    by (simp add: effect_defs boot_def initial_state_def Let_def not_truthy_or_string
        truthy_or_string or_string_nonempty default_model_nonempty)
qed

theorem saved_config_defaults_witness:
  "steps_of (startup 4 (cli_props no_flags None) sample_prompts (Some saved_without_model))
     = [ApiKey, Complete] \<and>
   map_option finalModel
     (state_of (startup 4 (cli_props no_flags None) sample_prompts (Some saved_without_model)))
     = Some ''meta-llama/llama-3.3-8b-instruct:free''"
proof -
  have h: "\<not> truthy (cli_apiKey no_flags None)" "\<not> flag_reconfigure no_flags"
    "\<not> truthy (flag_model no_flags)" "\<not> truthy (flag_personality no_flags)"
    "truthy (saved_apiKey saved_without_model)"
    by (simp_all add: no_flags_def cli_apiKey_def saved_without_model_def)
  from saved_config_defaults [OF h, of 1 sample_prompts] show ?thesis
    by (auto simp: steps_of_def state_of_def saved_without_model_def default_model_def)
qed

text \<open>
  C1 as stated fails: with a file that has a credential and a personality but no model,
  the machine enters \<open>Complete\<close> and never the model selection.
\<close>

theorem partial_config_counterexample:
  "finished (session 4 by_code_units sample_prompts no_flags None
      (Some saved_without_model) []) \<and>
   steps_of (session 4 by_code_units sample_prompts no_flags None
      (Some saved_without_model) []) = [ApiKey, Complete] \<and>
   ModelSelection \<notin> set (steps_of (session 4 by_code_units sample_prompts no_flags None
      (Some saved_without_model) []))"
  by code_simp

text \<open>
  C2, as the code has it. Every session comes to rest after each event within four effect
  rounds. When a credential comes from the \<open>--api-key\<close> flag or from the environment
  variable and reconfigure is not requested, \<open>saveConfig\<close> is never called in the
  session and the configuration file stays as it was; when no flag and no environment
  credential is given, a session that is in step \<open>Complete\<close> with a credential resolved
  has saved its resolved configuration last, and the file holds it.
\<close>

theorem persisted_unless_credential_given:
  "(truthy (cli_apiKey flags env) \<and> \<not> flag_reconfigure flags \<longrightarrow>
      (\<exists>m. session (n + 4) K P flags env f evs = Some m \<and>
           saves m = [] \<and> config_file m = f)) \<and>
   (\<not> truthy (flag_apiKey flags) \<and> \<not> truthy env \<and> \<not> truthy (flag_model flags) \<and>
    \<not> truthy (flag_personality flags) \<longrightarrow>
      (\<exists>m. session (n + 4) K P flags env f evs = Some m \<and>
           (completed (app m) \<longrightarrow>
              saves m \<noteq> [] \<and> last (saves m) = resolved (app m) \<and>
              config_file m = Some (saved_of (resolved (app m))))))"
proof -
  obtain m where m: "session (n + 4) K P flags env f evs = Some m"
    using session_finishes by blast
  have a: "saves m = [] \<and> config_file m = f"
    if "truthy (cli_apiKey flags env)" "\<not> flag_reconfigure flags"
  proof -
    from that have "truthy (initialApiKey (cli_props flags env))"
      by (simp add: cli_props_def)
    then show ?thesis using m by (rule session_no_save)
  qed
  have b: "saves m \<noteq> [] \<and> last (saves m) = resolved (app m) \<and>
      config_file m = Some (saved_of (resolved (app m)))"
    if "\<not> truthy (flag_apiKey flags)" "\<not> truthy env" "completed (app m)"
  proof -
    from that have "\<not> truthy (initialApiKey (cli_props flags env))"
      by (simp add: cli_props_def cli_apiKey_def or_option_not_truthy)
    from session_saved [OF this m that(3)] show ?thesis by simp
  qed
  from m a b show ?thesis by blast
qed

theorem persisted_unless_credential_given_witness:
  "saves_of (session 4 by_code_units sample_prompts no_flags (Some ''k1'') None
      [ModelChange ''openai/gpt-4'', ModelSubmit]) = [] \<and>
   last (saves_of (session 4 by_code_units sample_prompts no_flags None
      (Some saved_without_model) [])) =
     \<lparr>apiKey = ''k1'', model = ''meta-llama/llama-3.3-8b-instruct:free'',
      personality = ''sarcastic''\<rparr>"
proof -
  let ?a = "session 4 by_code_units sample_prompts no_flags (Some ''k1'') None
      [ModelChange ''openai/gpt-4'', ModelSubmit]"
  let ?b = "session 4 by_code_units sample_prompts no_flags None
      (Some saved_without_model) []"
  have four: "(0::nat) + 4 = 4" by simp
  have h: "truthy (cli_apiKey no_flags (Some ''k1''))" "\<not> flag_reconfigure no_flags"
    "\<not> truthy (flag_apiKey no_flags)" "\<not> truthy None"
    "\<not> truthy (flag_model no_flags)" "\<not> truthy (flag_personality no_flags)"
    by (simp_all add: no_flags_def cli_apiKey_def)
  from persisted_unless_credential_given [of no_flags "Some ''k1''" 0 by_code_units
      sample_prompts None "[ModelChange ''openai/gpt-4'', ModelSubmit]"] h
  obtain ma where "?a = Some ma" "saves ma = []"
    unfolding four by blast
  then have 1: "saves_of ?a = []" by (simp add: saves_of_def)
  from persisted_unless_credential_given [of no_flags None 0 by_code_units
      sample_prompts "Some saved_without_model" "[]"] h
  obtain mb where mb: "?b = Some mb"
    and l: "completed (app mb) \<longrightarrow> last (saves mb) = resolved (app mb)"
    unfolding four by blast
  have "completed (app (the ?b))" by code_simp
  with mb l have "last (saves_of ?b) = resolved (app (the ?b))"
    by (simp add: saves_of_def)
  moreover have "resolved (app (the ?b)) =
     \<lparr>apiKey = ''k1'', model = ''meta-llama/llama-3.3-8b-instruct:free'',
      personality = ''sarcastic''\<rparr>" by code_simp
  ultimately show ?thesis using 1 by simp
qed

text \<open>
  C2 as stated fails: with the credential from the environment variable and no flag,
  the session reaches \<open>Complete\<close> and nothing is saved.
\<close>

theorem env_credential_counterexample:
  "finished (session 4 by_code_units sample_prompts no_flags (Some ''k1'') None
      [ModelChange ''openai/gpt-4'', ModelSubmit]) \<and>
   map_option completed (state_of (session 4 by_code_units sample_prompts no_flags
      (Some ''k1'') None [ModelChange ''openai/gpt-4'', ModelSubmit])) = Some True \<and>
   saves_of (session 4 by_code_units sample_prompts no_flags (Some ''k1'') None
      [ModelChange ''openai/gpt-4'', ModelSubmit]) = []"
  by code_simp

text \<open>
  C10: when reconfigure is requested, no credential is handed to the application,
  whatever the flag and the environment hold; the start removes the configuration file
  and leaves the machine in step \<open>ApiKey\<close> without a credential; and every session
  comes to rest, and when it is in step \<open>Complete\<close> with a credential resolved it has
  saved its resolved configuration last, and the file holds it.
\<close>

theorem reconfigure_restarts_setup:
  "flag_reconfigure flags \<longrightarrow>
     initialApiKey (cli_props flags env) = None \<and>
     (\<exists>m. startup (n + 2) (cli_props flags env) P f = Some m \<and> visited m = [ApiKey] \<and>
          setupStep (app m) = ApiKey \<and> finalApiKey (app m) = [] \<and> configLoaded (app m) \<and>
          config_file m = None \<and> saves m = []) \<and>
     (\<exists>m. session (k + 4) K P flags env f evs = Some m \<and>
          (completed (app m) \<longrightarrow>
             saves m \<noteq> [] \<and> last (saves m) = resolved (app m) \<and>
             config_file m = Some (saved_of (resolved (app m)))))"
proof
  assume r: "flag_reconfigure flags"
  let ?props = "cli_props flags env"
  have p: "initialApiKey ?props = None" "reconfigure ?props"
    using r by (simp_all add: cli_props_def)
  have n2: "n + 2 = Suc (Suc n)" by simp
  have s: "\<exists>m. startup (n + 2) ?props P f = Some m \<and> visited m = [ApiKey] \<and>
          setupStep (app m) = ApiKey \<and> finalApiKey (app m) = [] \<and> configLoaded (app m) \<and>
          config_file m = None \<and> saves m = []"
    unfolding n2 using startup_reconfigure [of ?props n P f] p
    by (simp add: initial_state_def)
  obtain m where m: "session (k + 4) K P flags env f evs = Some m"
    using session_finishes by blast
  have c: "saves m \<noteq> [] \<and> last (saves m) = resolved (app m) \<and>
        config_file m = Some (saved_of (resolved (app m)))"
    if "completed (app m)"
  proof -
    have "\<not> truthy (initialApiKey ?props)" using p by simp
    from session_saved [OF this m that] show ?thesis by simp
  qed
  from p s m c
  show "initialApiKey ?props = None \<and>
     (\<exists>m. startup (n + 2) ?props P f = Some m \<and> visited m = [ApiKey] \<and>
          setupStep (app m) = ApiKey \<and> finalApiKey (app m) = [] \<and> configLoaded (app m) \<and>
          config_file m = None \<and> saves m = []) \<and>
     (\<exists>m. session (k + 4) K P flags env f evs = Some m \<and>
          (completed (app m) \<longrightarrow>
             saves m \<noteq> [] \<and> last (saves m) = resolved (app m) \<and>
             config_file m = Some (saved_of (resolved (app m)))))"
    by blast
qed

theorem reconfigure_restarts_setup_witness:
  "steps_of (startup 2
      (cli_props (no_flags\<lparr>flag_apiKey := Some ''kk'', flag_reconfigure := True\<rparr>) (Some ''ke''))
      sample_prompts (Some saved_without_model)) = [ApiKey] \<and>
   last (saves_of (session 4 by_code_units sample_prompts
      (no_flags\<lparr>flag_apiKey := Some ''kk'', flag_reconfigure := True\<rparr>) (Some ''ke'')
      (Some saved_without_model)
      [ApiKeyChange ''k1'', ApiKeySubmit, ListingArrives (TransportError ''socket hang up''),
       KeyEvent (no_key\<lparr>key_return := True\<rparr>)])) =
     \<lparr>apiKey = ''k1'', model = ''anthropic/claude-3.5-sonnet'', personality = ''cheerful''\<rparr>"
proof -
  let ?flags = "no_flags\<lparr>flag_apiKey := Some ''kk'', flag_reconfigure := True\<rparr>"
  let ?evs = "[ApiKeyChange ''k1'', ApiKeySubmit,
       ListingArrives (TransportError ''socket hang up''),
       KeyEvent (no_key\<lparr>key_return := True\<rparr>)]"
  let ?b = "session 4 by_code_units sample_prompts ?flags (Some ''ke'')
      (Some saved_without_model) ?evs"
  have two: "(0::nat) + 2 = 2" and four: "(0::nat) + 4 = 4" by simp_all
  have h: "flag_reconfigure ?flags" by simp
  from reconfigure_restarts_setup [of ?flags "Some ''ke''" 0 sample_prompts
      "Some saved_without_model" 0 by_code_units ?evs] h
  obtain m mb where m: "startup 2 (cli_props ?flags (Some ''ke'')) sample_prompts
        (Some saved_without_model) = Some m" "visited m = [ApiKey]"
    and mb: "?b = Some mb"
    and l: "completed (app mb) \<longrightarrow> last (saves mb) = resolved (app mb)"
    unfolding two four by blast
  from m have 1: "steps_of (startup 2 (cli_props ?flags (Some ''ke'')) sample_prompts
        (Some saved_without_model)) = [ApiKey]"
    by (simp only: steps_of_def option.case)
  have "completed (app (the ?b))" by code_simp
  with mb l have "last (saves_of ?b) = resolved (app (the ?b))"
    by (simp add: saves_of_def)
  moreover have "resolved (app (the ?b)) =
     \<lparr>apiKey = ''k1'', model = ''anthropic/claude-3.5-sonnet'', personality = ''cheerful''\<rparr>"
    by code_simp
  ultimately show ?thesis using 1 by simp
qed

section \<open>The welcome\<close>

lemma complete_effect_fst:
  "fst (complete_effect props P c p) =
     (if completed c then p\<lparr>messages := [welcome_message P c], isInputMode := True\<rparr> else p)"
  by (simp add: complete_effect_def completed_def)


















section \<open>The fetched model list\<close>

lemma mset_insert_by: "mset (insert_by cmp x xs) = add_mset x (mset xs)"
  by (induction xs) simp_all

lemma mset_sort_by: "mset (sort_by cmp xs) = mset xs"
  unfolding sort_by_def by (induction xs) (simp_all add: mset_insert_by)

lemma filter_insert_by:
  assumes trans: "\<And>a b c. cmp a b \<le> 0 \<Longrightarrow> cmp b c \<le> 0 \<Longrightarrow> cmp a c \<le> 0"
  shows "filter (\<lambda>y. cmp x y \<le> 0 \<and> cmp y x \<le> 0) (insert_by cmp a ys) =
         filter (\<lambda>y. cmp x y \<le> 0 \<and> cmp y x \<le> 0) (a # ys)"
proof (induction ys)
  case Nil
  show ?case by simp
next
  case (Cons y ys)
  show ?case
  proof (cases "cmp a y \<le> 0")
    case True
    then show ?thesis by simp
  next
    case False
    have "\<not> ((cmp x a \<le> 0 \<and> cmp a x \<le> 0) \<and> (cmp x y \<le> 0 \<and> cmp y x \<le> 0))"
      using False trans [of a x y] by blast
    with False Cons.IH show ?thesis by auto
  qed
qed

lemma filter_sort_by:
  assumes "\<And>a b c. cmp a b \<le> 0 \<Longrightarrow> cmp b c \<le> 0 \<Longrightarrow> cmp a c \<le> 0"
  shows "filter (\<lambda>y. cmp x y \<le> 0 \<and> cmp y x \<le> 0) (sort_by cmp xs) =
         filter (\<lambda>y. cmp x y \<le> 0 \<and> cmp y x \<le> 0) xs"
proof (induction xs)
  case Nil
  show ?case by (simp add: sort_by_def)
next
  case (Cons a xs)
  have "sort_by cmp (a # xs) = insert_by cmp a (sort_by cmp xs)"
    by (simp add: sort_by_def)
  then have "filter (\<lambda>y. cmp x y \<le> 0 \<and> cmp y x \<le> 0) (sort_by cmp (a # xs)) =
      filter (\<lambda>y. cmp x y \<le> 0 \<and> cmp y x \<le> 0) (a # sort_by cmp xs)"
    using filter_insert_by [where cmp = cmp and x = x and a = a and ys = "sort_by cmp xs"] assms
    by simp
  with Cons.IH show ?case by simp
qed

lemma stable_models:
  "filter (ranks_equal K x) (sort_by (compareModels K) xs) = filter (ranks_equal K x) xs"
proof -
  have "filter (\<lambda>y. compareModels K x y \<le> 0 \<and> compareModels K y x \<le> 0)
          (sort_by (compareModels K) xs) =
        filter (\<lambda>y. compareModels K x y \<le> 0 \<and> compareModels K y x \<le> 0) xs"
  proof (rule filter_sort_by)
    show "compareModels K a b \<le> 0 \<Longrightarrow> compareModels K b c \<le> 0 \<Longrightarrow>
          compareModels K a c \<le> 0" for a b c
      using listed_before_trans [of K a b c] by (simp add: compareModels_le)
  qed
  moreover have "ranks_equal K x =
      (\<lambda>y. compareModels K x y \<le> 0 \<and> compareModels K y x \<le> 0)"
    by (simp add: fun_eq_iff compareModels_le ranks_equal_def)
  ultimately show ?thesis by simp
qed

lemma to_model_displayed: "to_model x = displayed x"
  by (cases "raw_name x") (simp_all add: to_model_def displayed_def)

lemma keep_model_eligible: "keep_model x = eligible x"
  by (simp add: keep_model_def eligible_def)

lemma select_models_ranked:
  "select_models K raw =
     take 15 (sort_by (compareModels K) (map displayed (filter eligible raw)))"
proof -
  have "to_model = displayed" "keep_model = eligible"
    by (simp_all add: fun_eq_iff to_model_displayed keep_model_eligible)
  then show ?thesis by (simp add: select_models_def)
qed

lemma listing_data_fails: "listing_fails r \<longleftrightarrow> (\<exists>e. listing_data r = Inl e)"
  by (auto simp add: listing_fails_def listing_data_def split: response.splits parsed.splits)

lemma listing_data_entries: "\<not> listing_fails r \<Longrightarrow> listing_data r = Inr (listing_entries r)"
  by (auto simp add: listing_fails_def listing_data_def listing_entries_def
      split: response.splits parsed.splits if_splits)

lemma set_state_availableModels:
  "\<not> exited m \<Longrightarrow>
     availableModels (app (set_state props P u m)) = availableModels (u (app m))"
  by (simp add: set_state_def Let_def commit_def complete_effect_fst setup_effect_def)

lemma fetched_availableModels:
  assumes "\<not> exited m"
  shows "availableModels (app (fetchAvailableModels_end props K P r m)) =
     (case listing_data r of Inl e \<Rightarrow> [] | Inr raw \<Rightarrow> select_models K raw)"
  using assms
  by (simp add: fetchAvailableModels_end_def fetchAvailableModels_updates_def
      set_state_availableModels set_state_exited split: sum.splits)

text \<open>
  C4: when the listing request fails, the model list that is kept is empty. Otherwise it
  is the first 15 entries of a ranking of the eligible entries of the listing (those
  whose identifier does not contain \<open>free\<close> and whose context length is at least 4000,
  each with its display name), all of them and each as often as it is listed: the popular
  entries first in the order of the popular list, the others after them ordered by
  display name, and entries that rank the same in the order of the listing. So the list
  (1) has no entry whose identifier contains \<open>free\<close> and none with a context length
  below 4000, (2) has the popular entries first in the order of the popular list and the
  others after them ordered by display name, and (3) has at most 15 entries.
\<close>

theorem fetched_models:
  "\<not> exited m \<longrightarrow>
     (listing_fails r \<longrightarrow>
        availableModels (app (fetchAvailableModels_end props K P r m)) = []) \<and>
     (\<not> listing_fails r \<longrightarrow>
        (\<exists>ranked.
           mset ranked = mset (map displayed (filter eligible (listing_entries r))) \<and>
           sorted_wrt (listed_before K) ranked \<and>
           (\<forall>x. filter (ranks_equal K x) ranked =
                filter (ranks_equal K x) (map displayed (filter eligible (listing_entries r)))) \<and>
           availableModels (app (fetchAvailableModels_end props K P r m)) = take 15 ranked)) \<and>
     (\<forall>x \<in> set (availableModels (app (fetchAvailableModels_end props K P r m))).
        \<not> includes_str (model_id x) ''free'' \<and> 4000 \<le> context_length x) \<and>
     sorted_wrt (listed_before K)
       (availableModels (app (fetchAvailableModels_end props K P r m))) \<and>
     length (availableModels (app (fetchAvailableModels_end props K P r m))) \<le> 15"
proof (intro impI)
  assume ne: "\<not> exited m"
  let ?got = "availableModels (app (fetchAvailableModels_end props K P r m))"
  let ?kept = "map displayed (filter eligible (listing_entries r))"
  let ?ranked = "sort_by (compareModels K) ?kept"
  have fails: "?got = []" if "listing_fails r"
    using that fetched_availableModels [OF ne, of props K P r]
    by (auto simp add: listing_data_fails)
  have got: "?got = take 15 ?ranked" if "\<not> listing_fails r"
    using fetched_availableModels [OF ne, of props K P r] listing_data_entries [OF that]
    by (simp add: select_models_ranked)
  have ranked: "\<exists>ranked. mset ranked = mset ?kept \<and> sorted_wrt (listed_before K) ranked \<and>
      (\<forall>x. filter (ranks_equal K x) ranked = filter (ranks_equal K x) ?kept) \<and>
      ?got = take 15 ranked" if "\<not> listing_fails r"
  proof (intro exI conjI allI)
    show "mset ?ranked = mset ?kept" by (rule mset_sort_by)
    show "sorted_wrt (listed_before K) ?ranked" by (rule sorted_models)
    show "filter (ranks_equal K x) ?ranked = filter (ranks_equal K x) ?kept" for x
      by (rule stable_models)
    show "?got = take 15 ?ranked" using that by (rule got)
  qed
  have sub: "set ?got \<subseteq> set ?kept"
  proof (cases "listing_fails r")
    case True
    then show ?thesis by (simp add: fails)
  next
    case False
    have "set (take 15 ?ranked) \<subseteq> set ?ranked" by (rule set_take_subset)
    then show ?thesis by (simp add: got [OF False] set_sort_by)
  qed
  have excl: "\<forall>x \<in> set ?got. \<not> includes_str (model_id x) ''free'' \<and> 4000 \<le> context_length x"
  proof
    fix x assume "x \<in> set ?got"
    with sub obtain y where "eligible y" "x = displayed y" by auto
    then show "\<not> includes_str (model_id x) ''free'' \<and> 4000 \<le> context_length x"
      by (simp add: eligible_def displayed_def)
  qed
  have srt: "sorted_wrt (listed_before K) ?got"
  proof (cases "listing_fails r")
    case True
    then show ?thesis by (simp add: fails)
  next
    case False
    then show ?thesis by (simp add: got sorted_wrt_take_n sorted_models)
  qed
  have len: "length ?got \<le> 15"
  proof (cases "listing_fails r")
    case True
    then show ?thesis by (simp add: fails)
  next
    case False
    then show ?thesis by (simp add: got)
  qed
  from fails ranked excl srt len
  show "(listing_fails r \<longrightarrow> ?got = []) \<and>
     (\<not> listing_fails r \<longrightarrow>
        (\<exists>ranked. mset ranked = mset ?kept \<and> sorted_wrt (listed_before K) ranked \<and>
           (\<forall>x. filter (ranks_equal K x) ranked = filter (ranks_equal K x) ?kept) \<and>
           ?got = take 15 ranked)) \<and>
     (\<forall>x \<in> set ?got. \<not> includes_str (model_id x) ''free'' \<and> 4000 \<le> context_length x) \<and>
     sorted_wrt (listed_before K) ?got \<and> length ?got \<le> 15"
    by blast
qed

theorem fetched_models_witness:
  "\<not> exited (the (session 4 by_code_units sample_prompts no_flags None None
        [ApiKeyChange ''k1'', ApiKeySubmit])) \<and>
   \<not> listing_fails sample_listing \<and>
   mset (availableModels (app (fetchAvailableModels_end (cli_props no_flags None)
      by_code_units sample_prompts sample_listing
      (the (session 4 by_code_units sample_prompts no_flags None None
        [ApiKeyChange ''k1'', ApiKeySubmit]))))) =
     mset (map displayed (filter eligible (listing_entries sample_listing))) \<and>
   sorted_wrt (listed_before by_code_units)
     (availableModels (app (fetchAvailableModels_end (cli_props no_flags None)
      by_code_units sample_prompts sample_listing
      (the (session 4 by_code_units sample_prompts no_flags None None
        [ApiKeyChange ''k1'', ApiKeySubmit]))))) \<and>
   map model_id (availableModels (app (fetchAvailableModels_end (cli_props no_flags None)
      by_code_units sample_prompts sample_listing
      (the (session 4 by_code_units sample_prompts no_flags None None
        [ApiKeyChange ''k1'', ApiKeySubmit]))))) =
     [''anthropic/claude-3.5-sonnet'', ''openai/gpt-4'', ''openai/gpt-3.5-turbo'',
      ''b/m'', ''alpha/m'', ''zeta/model'']"
proof -
  define m where "m = the (session 4 by_code_units sample_prompts no_flags None None
        [ApiKeyChange ''k1'', ApiKeySubmit])"
  define got where "got = availableModels (app (fetchAvailableModels_end
      (cli_props no_flags None) by_code_units sample_prompts sample_listing m))"
  define kept where "kept = map displayed (filter eligible (listing_entries sample_listing))"
  have ne: "\<not> exited m" unfolding m_def by code_simp
  have nf: "\<not> listing_fails sample_listing"
    by (simp add: listing_fails_def sample_listing_def)
  have six: "length kept = 6" unfolding kept_def by code_simp
  have ids: "map model_id got =
     [''anthropic/claude-3.5-sonnet'', ''openai/gpt-4'', ''openai/gpt-3.5-turbo'',
      ''b/m'', ''alpha/m'', ''zeta/model'']"
    unfolding got_def m_def by code_simp
  from fetched_models [of m sample_listing "cli_props no_flags None" by_code_units
      sample_prompts] ne nf
  obtain ranked where r: "mset ranked = mset kept"
    and t: "got = take 15 ranked"
    and s: "sorted_wrt (listed_before by_code_units) got"
    unfolding got_def kept_def by blast
  from r have "length ranked = length kept" by (rule mset_eq_length)
  with six t have "got = ranked" by simp
  with r have "mset got = mset kept" by simp
  with ne nf s ids show ?thesis unfolding got_def kept_def m_def by blast
qed

section \<open>Failed listings and replies\<close>

lemma error_content_lead: "starts_with (error_content e) error_lead"
  by (simp add: error_content_def error_lead_def starts_with_def)

lemma reply_entry_cases:
  "(attempt_fails r \<longrightarrow> describes_error (reply_entry r)) \<and>
   (\<not> attempt_fails r \<longrightarrow>
      (\<exists>status statusText data. r = Response True status statusText (Parsed data) \<and>
         reply_entry r = \<lparr>role = Assistant, content = content_of data\<rparr>))"
proof (cases "attempt_fails r")
  case True
  then obtain e where "reply_content r = Inl e"
    using reply_content_cases [of r] by blast
  then have "describes_error (reply_entry r)"
    by (simp add: reply_entry_def describes_error_def error_content_lead)
  with True show ?thesis by simp
next
  case False
  then obtain status statusText data
    where r: "r = Response True status statusText (Parsed data)"
      and c: "reply_content r = Inr (content_of data)"
    using reply_content_cases [of r] by blast
  from c have "reply_entry r = \<lparr>role = Assistant, content = content_of data\<rparr>"
    by (simp add: reply_entry_def)
  with r False show ?thesis by blast
qed

text \<open>
  C3 in a chat session started from a saved configuration, with one turn submitted. A
  reply with status 500 adds one assistant message that describes the error, loading ends
  and the application goes on; a reply with a content adds that content and loading ends.
  A reply with a success status whose first choice has a message without content adds an
  assistant message without content and no message that describes an error; rendering
  that message throws, and the application ends with loading still on.
\<close>

theorem missing_content_ends_session:
  "attempt_fails reply_500 \<and>
   \<not> ended_of (session 4 by_code_units sample_prompts no_flags None (Some saved_funny)
      [InputChange '' fix my loop '', InputSubmit, ReplyArrives reply_500]) \<and>
   map_option isLoading (state_of (session 4 by_code_units sample_prompts no_flags None
      (Some saved_funny)
      [InputChange '' fix my loop '', InputSubmit, ReplyArrives reply_500])) = Some False \<and>
   map_option (\<lambda>s. describes_error (last (messages s)))
     (state_of (session 4 by_code_units sample_prompts no_flags None (Some saved_funny)
      [InputChange '' fix my loop '', InputSubmit, ReplyArrives reply_500])) = Some True \<and>
   map_option (\<lambda>s. (last (messages s), isLoading s))
     (state_of (session 4 by_code_units sample_prompts no_flags None (Some saved_funny)
      [InputChange '' fix my loop '', InputSubmit, ReplyArrives reply_ok])) =
     Some (\<lparr>role = Assistant, content = JStr ''Use a for loop.''\<rparr>, False) \<and>
   content_of (JObj [(''choices'',
          JArr [JObj [(''message'', JObj [(''role'', JStr ''assistant'')])]])]) = JUndefined \<and>
   map_option messages (state_of (session 4 by_code_units sample_prompts no_flags None
      (Some saved_funny)
      [InputChange '' fix my loop '', InputSubmit, ReplyArrives reply_without_content])) =
     Some [\<lparr>role = Assistant, content = JStr ''welcome of funny''\<rparr>,
           \<lparr>role = User, content = JStr ''fix my loop''\<rparr>,
           \<lparr>role = Assistant, content = JUndefined\<rparr>] \<and>
   \<not> describes_error \<lparr>role = Assistant, content = JUndefined\<rparr> \<and>
   map_option isLoading (state_of (session 4 by_code_units sample_prompts no_flags None
      (Some saved_funny)
      [InputChange '' fix my loop '', InputSubmit, ReplyArrives reply_without_content])) =
     Some True \<and>
   ended_of (session 4 by_code_units sample_prompts no_flags None (Some saved_funny)
      [InputChange '' fix my loop '', InputSubmit, ReplyArrives reply_without_content])"
  by code_simp

text \<open>
  C5 on a first run (no flag, no environment credential, no configuration file): after
  the key is submitted the step is the model selection; when the listing fails the model
  list is empty and the fallback model \<open>anthropic/claude-3.5-sonnet\<close> is chosen, but the
  steps shown are \<open>ApiKey\<close>, the model selection and \<open>Complete\<close>, with the personality
  \<open>cheerful\<close> saved: the personality selection is never entered. When reconfigure is
  requested, the same events lead from \<open>ApiKey\<close> directly to the personality selection.
\<close>

theorem listing_failure_skips_personality_choice:
  "steps_of (session 4 by_code_units sample_prompts no_flags None None
      [ApiKeyChange ''k1'', ApiKeySubmit]) = [ApiKey, ModelSelection] \<and>
   steps_of (session 4 by_code_units sample_prompts no_flags None None
      [ApiKeyChange ''k1'', ApiKeySubmit,
       ListingArrives (TransportError ''socket hang up'')]) =
     [ApiKey, ModelSelection, Complete] \<and>
   map_option availableModels (state_of (session 4 by_code_units sample_prompts no_flags
      None None
      [ApiKeyChange ''k1'', ApiKeySubmit,
       ListingArrives (TransportError ''socket hang up'')])) = Some [] \<and>
   saves_of (session 4 by_code_units sample_prompts no_flags None None
      [ApiKeyChange ''k1'', ApiKeySubmit,
       ListingArrives (TransportError ''socket hang up'')]) =
     [\<lparr>apiKey = ''k1'', model = ''anthropic/claude-3.5-sonnet'',
       personality = ''cheerful''\<rparr>] \<and>
   \<not> ended_of (session 4 by_code_units sample_prompts no_flags None None
      [ApiKeyChange ''k1'', ApiKeySubmit,
       ListingArrives (TransportError ''socket hang up'')]) \<and>
   steps_of (session 4 by_code_units sample_prompts (no_flags\<lparr>flag_reconfigure := True\<rparr>)
      None None
      [ApiKeyChange ''k1'', ApiKeySubmit,
       ListingArrives (TransportError ''socket hang up'')]) =
     [ApiKey, PersonalitySelection]"
  by code_simp

end
